theory Spec2Isabelle
  imports Main "HOL-Library.Word"
begin

unbundle bit_operations_syntax

section \<open>Data model\<close>

type_synonym u8 = "8 word"
type_synonym u16 = "16 word"
type_synonym u32 = "32 word"
type_synonym u64 = "64 word"

text \<open>The exceptions the modelled code throws.\<close>

datatype error = invalid_argument | overflow_error | out_of_range

subsection \<open>Address slices (inc/address.h)\<close>

text \<open>
  An extent is the pair of bit positions \<open>[lower, upper)\<close>. The header \<open>extent.h\<close> is not
  among the sources; \<open>address.h\<close> only reads the members \<open>upper\<close> and \<open>lower\<close>, which are
  \<open>std::size_t\<close>. Static, dynamic and sized extents all carry these two numbers, at compile
  time or at run time, so one record stands for all three.
\<close>

record extent =
  upper :: nat
  lower :: nat

text \<open>The invariant the spec gives for extents: \<open>0 \<le> lo \<le> hi \<le> 64\<close>.\<close>

definition extent_ok :: "extent \<Rightarrow> bool" where
  "extent_ok e \<longleftrightarrow> lower e \<le> upper e \<and> upper e \<le> 64"

text \<open>
  Modelled from the spec: \<open>champsim::bitmask(begin, end)\<close> of \<open>util/bits.h\<close>, which is not
  among the sources. The spec asks that a slice has "no bits set outside \<open>[0, hi-lo)\<close>" after
  masking with \<open>bitmask(hi - lo)\<close> and that slicing computes \<open>(v & mask(E)) >> E.lo\<close>: the mask
  has exactly the bits \<open>[end, begin)\<close> set. The second argument defaults to 0.
\<close>

definition bitmask :: "nat \<Rightarrow> nat \<Rightarrow> u64" where
  "bitmask begin end' = push_bit end' (mask (begin - end'))"

text \<open>
  Modelled from the spec: \<open>champsim::splice_bits(upper, lower, bits_upper, bits_lower)\<close> of
  \<open>util/bits.h\<close>, not among the sources: the bits \<open>[bits_lower, bits_upper)\<close> are taken from
  the second word and all others from the first ("later arguments win").
\<close>

definition splice_bits :: "u64 \<Rightarrow> u64 \<Rightarrow> nat \<Rightarrow> nat \<Rightarrow> u64" where
  "splice_bits up lo bits_upper bits_lower =
     (up AND NOT (bitmask bits_upper bits_lower)) OR (lo AND bitmask bits_upper bits_lower)"

text \<open>
  Modelled from the spec: \<open>extent_union\<close> of \<open>extent.h\<close>, not among the sources: "a slice
  whose extent is the union of the inputs", the smallest extent that covers both.
\<close>

definition extent_union :: "extent \<Rightarrow> extent \<Rightarrow> extent" where
  "extent_union a b = \<lparr>upper = max (upper a) (upper b), lower = min (lower a) (lower b)\<rparr>"

text \<open>
  The class \<open>address_slice<EXTENT>\<close> has the two members \<open>extent\<close> and \<open>value\<close>; the value
  is a \<open>uint64_t\<close>.
\<close>

record address_slice =
  slice_extent :: extent
  slice_value :: u64

definition upper_extent :: "address_slice \<Rightarrow> nat" where
  "upper_extent s = upper (slice_extent s)"

definition lower_extent :: "address_slice \<Rightarrow> nat" where
  "lower_extent s = lower (slice_extent s)"

text \<open>
  \<open>address_slice(underlying_type val)\<close>: the constructor of a statically sized slice from a
  raw value. It stores the value as it is; the static extent is passed here explicitly.
\<close>

definition address_slice_static :: "extent \<Rightarrow> u64 \<Rightarrow> address_slice" where
  "address_slice_static ext val = \<lparr>slice_extent = ext, slice_value = val\<rparr>"

text \<open>\<open>address_slice(extent_type ext, underlying_type val)\<close>.\<close>

definition address_slice_raw :: "extent \<Rightarrow> u64 \<Rightarrow> address_slice" where
  "address_slice_raw ext val =
     \<lparr>slice_extent = ext, slice_value = val AND bitmask (upper ext - lower ext) 0\<rparr>"

text \<open>
  \<open>address_slice(extent_type ext, const address_slice<OTHER_EXT>& val)\<close>. A C++ shift by 64
  or more is undefined; \<open>push_bit\<close> and \<open>drop_bit\<close> shift everything out there.
\<close>

definition address_slice_conv :: "extent \<Rightarrow> address_slice \<Rightarrow> address_slice" where
  "address_slice_conv ext val =
     \<lparr>slice_extent = ext,
      slice_value = drop_bit (lower ext)
        (push_bit (lower_extent val) (slice_value val) AND bitmask (upper ext) (lower ext))\<rparr>"

text \<open>
  \<open>address_slice(const address_slice<OTHER_EXT>& val)\<close> for a dynamic extent:
  \<open>maybe_dynamic\<close> copies the bounds of the argument.
\<close>

definition address_slice_copy :: "address_slice \<Rightarrow> address_slice" where
  "address_slice_copy val =
     address_slice_conv \<lparr>upper = upper_extent val, lower = lower_extent val\<rparr> val"

text \<open>The comparison operators. A thrown exception is the left summand.\<close>

definition operator_eq :: "address_slice \<Rightarrow> address_slice \<Rightarrow> error + bool" where
  "operator_eq a b =
     (if upper_extent a \<noteq> upper_extent b then Inl invalid_argument
      else if lower_extent a \<noteq> lower_extent b then Inl invalid_argument
      else Inr (slice_value a = slice_value b))"

definition operator_lt :: "address_slice \<Rightarrow> address_slice \<Rightarrow> error + bool" where
  "operator_lt a b =
     (if upper_extent a \<noteq> upper_extent b then Inl invalid_argument
      else if lower_extent a \<noteq> lower_extent b then Inl invalid_argument
      else Inr (slice_value a < slice_value b))"

definition operator_ne :: "address_slice \<Rightarrow> address_slice \<Rightarrow> error + bool" where
  "operator_ne a b = (case operator_eq a b of Inl e \<Rightarrow> Inl e | Inr r \<Rightarrow> Inr (\<not> r))"

text \<open>\<open>*this < other || *this == other\<close>: the right operand is evaluated only when the
  left one returned false.\<close>

definition operator_le :: "address_slice \<Rightarrow> address_slice \<Rightarrow> error + bool" where
  "operator_le a b =
     (case operator_lt a b of
        Inl e \<Rightarrow> Inl e
      | Inr r \<Rightarrow> if r then Inr True else operator_eq a b)"

text \<open>\<open>!(value <= other.value)\<close>: the stored values are compared directly.\<close>

definition operator_gt :: "address_slice \<Rightarrow> address_slice \<Rightarrow> error + bool" where
  "operator_gt a b = Inr (\<not> (slice_value a \<le> slice_value b))"

definition operator_ge :: "address_slice \<Rightarrow> address_slice \<Rightarrow> error + bool" where
  "operator_ge a b =
     (case operator_gt a b of
        Inl e \<Rightarrow> Inl e
      | Inr r \<Rightarrow> if r then Inr True else operator_eq a b)"

text \<open>
  The arithmetic operators. The argument is a \<open>difference_type\<close> (\<open>int64_t\<close>), given here by
  its 64 bits; \<open>static_cast<underlying_type>\<close> keeps the bits and the addition wraps. In
  \<open>operator-=\<close> the negation of the least \<open>int64_t\<close> is undefined in C++; here it wraps.
\<close>

definition operator_add_assign :: "address_slice \<Rightarrow> u64 \<Rightarrow> address_slice" where
  "operator_add_assign s delta =
     s\<lparr>slice_value := (slice_value s + delta) AND bitmask (upper_extent s - lower_extent s) 0\<rparr>"

definition operator_sub_assign :: "address_slice \<Rightarrow> u64 \<Rightarrow> address_slice" where
  "operator_sub_assign s delta = operator_add_assign s (- delta)"

definition operator_inc :: "address_slice \<Rightarrow> address_slice" where
  "operator_inc s = operator_add_assign s 1"

definition operator_dec :: "address_slice \<Rightarrow> address_slice" where
  "operator_dec s = operator_sub_assign s 1"

text \<open>
  \<open>champsim::offset(base, other)\<close>. The result is a \<open>difference_type\<close>, given by its 64 bits
  and read as a signed number with \<open>sint\<close>.
\<close>

definition offset :: "address_slice \<Rightarrow> address_slice \<Rightarrow> error + u64" where
  "offset base other =
     (let abs_diff = (if slice_value base > slice_value other
                      then slice_value base - slice_value other
                      else slice_value other - slice_value base)
      in if abs_diff > 0x7FFFFFFFFFFFFFFF then Inl overflow_error
         else Inr (if slice_value base > slice_value other then - abs_diff else abs_diff))"

text \<open>\<open>detail::splice_fold_wrapper\<close>: an extent and an underlying value.\<close>

record splice_fold_wrapper =
  wrapper_extent :: extent
  underlying :: u64

definition wrap :: "address_slice \<Rightarrow> splice_fold_wrapper" where
  "wrap addr = \<lparr>wrapper_extent = slice_extent addr, underlying = slice_value addr\<rparr>"

definition wrapper_plus :: "splice_fold_wrapper \<Rightarrow> splice_fold_wrapper \<Rightarrow> splice_fold_wrapper" where
  "wrapper_plus this other =
     (let return_extent = extent_union (wrapper_extent this) (wrapper_extent other)
      in \<lparr>wrapper_extent = return_extent,
          underlying = splice_bits
            (push_bit (lower (wrapper_extent this) - lower return_extent) (underlying this))
            (push_bit (lower (wrapper_extent other) - lower return_extent) (underlying other))
            (upper (wrapper_extent other) - lower return_extent)
            (lower (wrapper_extent other) - lower return_extent)\<rparr>)"

definition wrapper_address :: "splice_fold_wrapper \<Rightarrow> address_slice" where
  "wrapper_address w = address_slice_raw (wrapper_extent w) (underlying w)"

text \<open>
  \<open>champsim::splice(slices...)\<close> is the right fold \<open>(w1 + (w2 + (... + wn)))\<close> of the wrapped
  slices; it takes at least one slice. (The name \<open>splice\<close> is taken by a list function.)
\<close>

fun splice_fold :: "splice_fold_wrapper \<Rightarrow> splice_fold_wrapper list \<Rightarrow> splice_fold_wrapper" where
  "splice_fold w [] = w"
| "splice_fold w (v # vs) = wrapper_plus w (splice_fold v vs)"

definition splice_slices :: "address_slice \<Rightarrow> address_slice list \<Rightarrow> address_slice" where
  "splice_slices s ss = wrapper_address (splice_fold (wrap s) (map wrap ss))"

text \<open>
  The specialisations \<open>champsim::address\<close>, \<open>page_number\<close> and \<open>page_offset\<close> named in the
  class comment, built from a raw value. \<open>LOG2_PAGE_SIZE\<close> is a constant of a header that is
  not among the sources and is a parameter here; \<open>PAGE_SIZE\<close> is \<open>1 << LOG2_PAGE_SIZE\<close>.
\<close>

definition address :: "u64 \<Rightarrow> address_slice" where
  "address v = address_slice_static \<lparr>upper = 64, lower = 0\<rparr> v"

definition page_number :: "nat \<Rightarrow> u64 \<Rightarrow> address_slice" where
  "page_number log2_page_size v = address_slice_static \<lparr>upper = 64, lower = log2_page_size\<rparr> v"

definition page_offset :: "nat \<Rightarrow> u64 \<Rightarrow> address_slice" where
  "page_offset log2_page_size v = address_slice_static \<lparr>upper = log2_page_size, lower = 0\<rparr> v"

definition PAGE_SIZE :: "nat \<Rightarrow> u64" where
  "PAGE_SIZE log2_page_size = push_bit log2_page_size 1"

subsection \<open>Dependency lists (inc/block.h)\<close>

text \<open>
  \<open>std::inplace_merge\<close> on the ranges \<open>[begin, middle)\<close> and \<open>[middle, end)\<close>: the stable
  merge, which takes the element of the second range only when it is less than the element
  of the first.
\<close>

fun inplace_merge :: "'a::linorder list \<Rightarrow> 'a list \<Rightarrow> 'a list" where
  "inplace_merge [] ys = ys"
| "inplace_merge xs [] = xs"
| "inplace_merge (x # xs) (y # ys) =
     (if y < x then y # inplace_merge (x # xs) ys else x # inplace_merge xs (y # ys))"

text \<open>\<open>std::unique\<close> followed by \<open>erase\<close>: of each run of equal neighbours the first stays.\<close>

fun unique :: "'a list \<Rightarrow> 'a list" where
  "unique [] = []"
| "unique [x] = [x]"
| "unique (x # y # xs) = (if x = y then unique (x # xs) else x # unique (y # xs))"

text \<open>
  \<open>packet_dep_merge(dest, src)\<close>: \<open>src\<close> is appended to \<open>dest\<close>, \<open>middle\<close> is the old end of
  \<open>dest\<close>. The function returns the new \<open>dest\<close>; \<open>src\<close> is not written.
\<close>

definition packet_dep_merge :: "'a::linorder list \<Rightarrow> 'a list \<Rightarrow> 'a list" where
  "packet_dep_merge dest src = unique (inplace_merge dest src)"

subsection \<open>Instructions (inc/instruction.h)\<close>

record input_instr =
  in_ip :: u64
  in_is_branch :: u8
  in_branch_taken :: u8
  in_destination_registers :: "u8 list"
  in_source_registers :: "u8 list"
  in_destination_memory :: "u64 list"
  in_source_memory :: "u64 list"

record cloudsuite_instr =
  cs_ip :: u64
  cs_is_branch :: u8
  cs_branch_taken :: u8
  cs_destination_registers :: "u8 list"
  cs_source_registers :: "u8 list"
  cs_destination_memory :: "u64 list"
  cs_source_memory :: "u64 list"
  cs_asid :: "u8 list"

record ooo_model_instr =
  instr_id :: u64
  ip :: u64
  event_cycle :: u64
  is_branch :: bool
  branch_taken :: bool
  branch_prediction :: bool
  branch_mispredicted :: bool
  asid :: u16
  branch_type :: u8
  branch_target :: u64
  destination_registers :: "u8 list"
  source_registers :: "u8 list"
  destination_memory :: "u64 list"
  source_memory :: "u64 list"

text \<open>\<open>std::remove_copy(first, last, back_inserter(out), 0)\<close> into an empty vector.\<close>

definition remove_copy_zero :: "'a::zero list \<Rightarrow> 'a list" where
  "remove_copy_zero xs = filter (\<lambda>x. x \<noteq> 0) xs"

text \<open>
  The private constructor \<open>ooo_model_instr(T instr, uint16_t asid)\<close>, once for each of the
  two trace formats. The members it does not name keep their default initialisers.
\<close>

definition ooo_model_instr_input :: "input_instr \<Rightarrow> u16 \<Rightarrow> ooo_model_instr" where
  "ooo_model_instr_input instr a =
     \<lparr>instr_id = 0, ip = in_ip instr, event_cycle = 0,
      is_branch = (in_is_branch instr \<noteq> 0), branch_taken = (in_branch_taken instr \<noteq> 0),
      branch_prediction = False, branch_mispredicted = False,
      asid = a, branch_type = 0, branch_target = 0,
      destination_registers = remove_copy_zero (in_destination_registers instr),
      source_registers = remove_copy_zero (in_source_registers instr),
      destination_memory = remove_copy_zero (in_destination_memory instr),
      source_memory = remove_copy_zero (in_source_memory instr)\<rparr>"

definition ooo_model_instr_cloudsuite :: "cloudsuite_instr \<Rightarrow> u16 \<Rightarrow> ooo_model_instr" where
  "ooo_model_instr_cloudsuite instr a =
     \<lparr>instr_id = 0, ip = cs_ip instr, event_cycle = 0,
      is_branch = (cs_is_branch instr \<noteq> 0), branch_taken = (cs_branch_taken instr \<noteq> 0),
      branch_prediction = False, branch_mispredicted = False,
      asid = a, branch_type = 0, branch_target = 0,
      destination_registers = remove_copy_zero (cs_destination_registers instr),
      source_registers = remove_copy_zero (cs_source_registers instr),
      destination_memory = remove_copy_zero (cs_destination_memory instr),
      source_memory = remove_copy_zero (cs_source_memory instr)\<rparr>"

text \<open>
  The public constructors. In
  \<open>(static_cast<uint16_t>(instr.asid[1]) << 8) + instr.asid[0]\<close> both operands are promoted to
  \<open>int\<close> (32 bits) and the sum is converted to the \<open>uint16_t\<close> parameter.
\<close>

definition of_input_instr :: "input_instr \<Rightarrow> ooo_model_instr" where
  "of_input_instr instr = ooo_model_instr_input instr 0xFFFF"

definition of_cloudsuite_instr :: "cloudsuite_instr \<Rightarrow> ooo_model_instr" where
  "of_cloudsuite_instr instr =
     ooo_model_instr_cloudsuite instr
       (ucast (push_bit 8 (ucast (ucast (cs_asid instr ! 1) :: u16) :: u32)
               + (ucast (cs_asid instr ! 0) :: u32)))"

subsection \<open>LRU replacement (replacement/lru/lru.cc)\<close>

text \<open>
  The members of the class \<open>lru\<close> that \<open>lru.cc\<close> uses; \<open>lru.h\<close> is not among the sources.
  \<open>set\<close>, \<open>way\<close> and \<open>NUM_WAY\<close> are \<open>long\<close>: the index is computed on integers (signed overflow
  is undefined in C++) and converted to \<open>std::size_t\<close> for \<open>vector::at\<close>, which throws
  \<open>std::out_of_range\<close> when the index is not below the size. The constant \<open>WRITE\<close> comes
  from a header that is not among the sources and is a parameter.
\<close>

record lru =
  NUM_WAY :: int
  last_used_cycles :: "u64 list"
  cycle :: u64

definition at_index :: "int \<Rightarrow> nat" where
  "at_index i = nat (i mod 2 ^ 64)"

text \<open>
  \<open>last_used_cycles.at(set * NUM_WAY + way) = cycle++\<close>: the right operand of an assignment is
  evaluated first, so the counter has advanced when \<open>at\<close> looks the index up. An exception
  of \<open>at\<close> leaves the policy with the advanced counter and the table as it was: the error
  comes with that state.
\<close>

definition update_replacement_state ::
    "u32 \<Rightarrow> lru \<Rightarrow> int \<Rightarrow> int \<Rightarrow> u32 \<Rightarrow> u8 \<Rightarrow> (error \<times> lru) + lru" where
  "update_replacement_state WRITE s set' way type' hit =
     (if hit = 0 \<or> type' \<noteq> WRITE
      then (let c = cycle s;
                s1 = s\<lparr>cycle := cycle s + 1\<rparr>;
                i = at_index (set' * NUM_WAY s1 + way)
            in if i < length (last_used_cycles s1)
               then Inr (s1\<lparr>last_used_cycles := (last_used_cycles s1)[i := c]\<rparr>)
               else Inl (out_of_range, s1))
      else Inr s)"

subsection \<open>Detection of module hooks (inc/modules_detect.h)\<close>

text \<open>
  What \<open>champsim::is_detected_v<detail::has_..., T>\<close> yields for a module type \<open>T\<close>: one
  boolean for each signature the header looks for.
\<close>

record branch_predictor_module =
  predict_branch_v1 :: bool
  predict_branch_v2 :: bool

record btb_module =
  btb_prediction_v1 :: bool
  btb_prediction_v2 :: bool

record prefetcher_module =
  cache_operate_v1 :: bool
  cache_operate_v2 :: bool
  cache_operate_v3 :: bool

record replacement_module =
  find_victim_v1 :: bool
  find_victim_v2 :: bool
  update_state_v1 :: bool
  update_state_v2 :: bool

definition has_predict_branch :: "branch_predictor_module \<Rightarrow> int" where
  "has_predict_branch T = (if predict_branch_v1 T then 1 else if predict_branch_v2 T then 2 else 0)"

definition has_btb_prediction :: "btb_module \<Rightarrow> int" where
  "has_btb_prediction T = (if btb_prediction_v1 T then 1 else if btb_prediction_v2 T then 2 else 0)"

definition has_cache_operate :: "prefetcher_module \<Rightarrow> int" where
  "has_cache_operate T =
     (if cache_operate_v3 T then 3 else if cache_operate_v2 T then 2
      else if cache_operate_v1 T then 1 else 0)"

definition has_find_victim :: "replacement_module \<Rightarrow> int" where
  "has_find_victim T = (if find_victim_v2 T then 2 else if find_victim_v1 T then 1 else 0)"

definition has_update_state :: "replacement_module \<Rightarrow> int" where
  "has_update_state T = (if update_state_v2 T then 2 else if update_state_v1 T then 1 else 0)"

subsection \<open>The DRAM scheduler test (test/cpp/src/701-dram-scheduler.cc)\<close>

text \<open>
  The request stream of the scenario: row, bank and arrival cycle of each of the 21 LOAD
  requests, and the order the test expects. A request is its position in these lists
  (\<open>instr_id\<close>). The column (\<open>col_access\<close>) plays no part in scheduling and is left out.
\<close>

definition row_access :: "nat list" where
  "row_access = [0, 1, 0, 1, 0, 1, 0, 1, 0, 1, 0, 1, 0, 1, 0, 1, 0, 1, 0, 1, 0]"

definition bak_access :: "nat list" where
  "bak_access = [0, 0, 0, 1, 1, 1, 2, 2, 2, 3, 3, 3, 4, 4, 4, 5, 5, 5, 6, 6, 6]"

definition arriv_time :: "nat list" where
  "arriv_time = [3, 4, 2, 0, 1, 5, 6, 7, 8, 9, 10, 11, 12, 13, 14, 15, 16, 17, 20, 18, 19]"

definition expected_order :: "nat list" where
  "expected_order = [3, 2, 6, 9, 12, 15, 19, 4, 0, 7, 10, 13, 16, 20, 1, 5, 8, 11, 14, 17, 18]"

text \<open>
  The test splices each address from a row, rank, column, bank, channel and block slice; the
  controller reads bank and row back from it. A packet is given here by its bank and row.
\<close>

definition packet_stream :: "(nat \<times> nat) list" where
  "packet_stream = zip bak_access row_access"

text \<open>
  Modelled from the spec: the memory controller (\<open>MEMORY_CONTROLLER::_operate\<close>,
  \<open>dram_controller.cc\<close>), which is not among the sources. A queued request carries its bank
  and row, the flag \<open>scheduled\<close> and \<open>event_cycle\<close>, the arrival cycle until the request is
  scheduled and the cycle of completion afterwards. Per bank the controller keeps
  \<open>current_row\<close>, \<open>row_busy_until\<close> and \<open>bank_busy_until\<close>. The timing parameters are
  numbers of cycles.
\<close>

record dram_request =
  req_bank :: nat
  req_row :: nat
  req_event_cycle :: nat
  req_scheduled :: bool

record dram_bank =
  current_row :: "nat option"
  row_busy_until :: nat
  bank_busy_until :: nat

record dram_timing =
  t_RP :: nat
  t_RCD :: nat
  t_CAS :: nat

record memory_controller =
  current_cycle :: nat
  RQ :: "dram_request option list"
  banks :: "dram_bank list"

definition arrived :: "memory_controller \<Rightarrow> dram_request \<Rightarrow> bool" where
  "arrived c r \<longleftrightarrow> \<not> req_scheduled r \<and> req_event_cycle r \<le> current_cycle c"

definition bank_idle :: "memory_controller \<Rightarrow> dram_request \<Rightarrow> bool" where
  "bank_idle c r \<longleftrightarrow> bank_busy_until (banks c ! req_bank r) \<le> current_cycle c"

definition row_hit :: "memory_controller \<Rightarrow> dram_request \<Rightarrow> bool" where
  "row_hit c r \<longleftrightarrow> current_row (banks c ! req_bank r) = Some (req_row r)"

text \<open>
  Modelled from the spec: "pick the one with the smallest arrival cycle (deterministic
  tie-break: lowest queue index)", among the queue entries that satisfy \<open>P\<close>. The queue is
  scanned from index \<open>i\<close> on and \<open>best\<close> is the choice so far.
\<close>

fun oldest :: "(dram_request \<Rightarrow> bool) \<Rightarrow> dram_request option list \<Rightarrow> nat
    \<Rightarrow> (nat \<times> dram_request) option \<Rightarrow> (nat \<times> dram_request) option" where
  "oldest P [] i best = best"
| "oldest P (None # es) i best = oldest P es (Suc i) best"
| "oldest P (Some r # es) i best =
     oldest P es (Suc i)
       (if P r \<and> (case best of None \<Rightarrow> True
                   | Some (j, b) \<Rightarrow> req_event_cycle r < req_event_cycle b)
        then Some (i, r) else best)"

text \<open>
  Modelled from the spec: the choice of the request to schedule (section 4.3, rules 1 to 3).
  A request is eligible when it has arrived, is not scheduled and its bank is idle. Rule 3
  picks the oldest eligible request. Rule 1, the preference for eligible requests that
  target the open row of their bank, is applied only when \<open>row_hit_first\<close> is set, so that
  the scheduler can be run with and without it.
\<close>

definition pick :: "bool \<Rightarrow> memory_controller \<Rightarrow> (nat \<times> dram_request) option" where
  "pick row_hit_first c =
     (let hits = oldest (\<lambda>r. arrived c r \<and> bank_idle c r \<and> row_hit c r) (RQ c) 0 None
      in if row_hit_first \<and> hits \<noteq> None then hits
         else oldest (\<lambda>r. arrived c r \<and> bank_idle c r) (RQ c) 0 None)"

text \<open>
  Modelled from the spec: one cycle of the controller. At most one request is scheduled;
  its flag flips, a row miss is charged \<open>t_RP + t_RCD\<close> before the \<open>t_CAS\<close> of every access,
  \<open>event_cycle\<close> becomes the cycle of completion and the bank is busy until then. The
  response to the requester and write requests are not modelled: the scenario has reads
  only and asks for no response.
\<close>

definition dram_operate :: "bool \<Rightarrow> dram_timing \<Rightarrow> memory_controller \<Rightarrow> memory_controller" where
  "dram_operate row_hit_first tm c =
     (let now = current_cycle c
      in case pick row_hit_first c of
           None \<Rightarrow> c\<lparr>current_cycle := now + 1\<rparr>
         | Some (i, r) \<Rightarrow>
             (let activated = now + (if row_hit c r then 0 else t_RP tm + t_RCD tm);
                  done = activated + t_CAS tm
              in c\<lparr>current_cycle := now + 1,
                   RQ := (RQ c)[i := Some (r\<lparr>req_scheduled := True,
                                             req_event_cycle := done\<rparr>)],
                   banks := (banks c)[req_bank r :=
                      \<lparr>current_row = Some (req_row r), row_busy_until = activated,
                       bank_busy_until = done\<rparr>]\<rparr>))"

text \<open>
  The harness \<open>dram_test\<close> of the test file. After each \<open>_operate\<close> it reads the flags
  "scheduled or empty" of the queue entries, finds the first position where they differ
  from the flags of the cycle before (\<open>std::mismatch\<close>) and appends that position to
  \<open>scheduled_order\<close>. The \<open>while\<close> loop ends when every packet has been recorded; it has no
  other exit, so the model takes fuel and returns \<open>None\<close> when the fuel runs out.
\<close>

fun first_mismatch :: "bool list \<Rightarrow> bool list \<Rightarrow> nat \<Rightarrow> nat option" where
  "first_mismatch (x # xs) (y # ys) i =
     (if x \<noteq> y then Some i else first_mismatch xs ys (Suc i))"
| "first_mismatch _ _ i = None"

definition is_scheduled :: "dram_request option \<Rightarrow> bool" where
  "is_scheduled e = (case e of None \<Rightarrow> True | Some r \<Rightarrow> req_scheduled r)"

fun dram_test_loop :: "nat \<Rightarrow> bool \<Rightarrow> dram_timing \<Rightarrow> nat \<Rightarrow> memory_controller \<Rightarrow> bool list
    \<Rightarrow> nat list \<Rightarrow> nat list option" where
  "dram_test_loop fuel rhf tm n uut last_scheduled scheduled_order =
     (if n \<le> length scheduled_order then Some scheduled_order
      else case fuel of
        0 \<Rightarrow> None
      | Suc fuel' \<Rightarrow>
          (let uut' = dram_operate rhf tm uut;
               next_scheduled = map is_scheduled (RQ uut')
           in dram_test_loop fuel' rhf tm n uut' next_scheduled
                (case first_mismatch next_scheduled last_scheduled 0 of
                   None \<Rightarrow> scheduled_order
                 | Some i \<Rightarrow> scheduled_order @ [i])))"

declare dram_test_loop.simps [simp del]

text \<open>
  \<open>dram_test\<close> sets the clock to 0 and loads the packets into the read queue with their
  arrival cycles as \<open>event_cycle\<close>; the queue of the model holds these packets and no
  empty entries behind them. The number of banks (\<open>DRAM_BANKS\<close>) is a constant of a
  header that is not among the sources and is a parameter.
\<close>

definition dram_test ::
    "nat \<Rightarrow> bool \<Rightarrow> dram_timing \<Rightarrow> nat \<Rightarrow> (nat \<times> nat) list \<Rightarrow> nat list \<Rightarrow> nat list option" where
  "dram_test fuel rhf tm nbanks pkts arr =
     dram_test_loop fuel rhf tm (length pkts)
       \<lparr>current_cycle = 0,
        RQ = map2 (\<lambda>(b, r) cyc. Some \<lparr>req_bank = b, req_row = r, req_event_cycle = cyc,
                                       req_scheduled = False\<rparr>) pkts arr,
        banks = replicate nbanks
                  \<lparr>current_row = None, row_busy_until = 0, bank_busy_until = 0\<rparr>\<rparr>
       (replicate (length pkts) False) []"

text \<open>
  Notions for the proofs about the scenario. \<open>quiet_until c T\<close>: no request of the queue can
  be scheduled before cycle \<open>T\<close>. \<open>mk t ds bs\<close>: the controller of the scenario at cycle \<open>t\<close>,
  where \<open>ds\<close> gives for each request the cycle of completion if it is scheduled and \<open>bs\<close>
  the state of each bank. \<open>dram_run\<close>: the harness loop of the scenario, started with the
  flags of the queue.
\<close>

definition waits :: "memory_controller \<Rightarrow> nat \<Rightarrow> dram_request \<Rightarrow> bool" where
  "waits c T r \<longleftrightarrow> req_scheduled r \<or> T \<le> req_event_cycle r
                   \<or> T \<le> bank_busy_until (banks c ! req_bank r)"

definition quiet_until :: "memory_controller \<Rightarrow> nat \<Rightarrow> bool" where
  "quiet_until c T \<longleftrightarrow> list_all (\<lambda>e. \<forall>r. e = Some r \<longrightarrow> waits c T r) (RQ c)"

definition mk_req :: "((nat \<times> nat) \<times> nat) \<Rightarrow> nat option \<Rightarrow> dram_request option" where
  "mk_req x d =
     (case x of ((b, r), a) \<Rightarrow>
        Some (case d of
                None \<Rightarrow> \<lparr>req_bank = b, req_row = r, req_event_cycle = a,
                          req_scheduled = False\<rparr>
              | Some t \<Rightarrow> \<lparr>req_bank = b, req_row = r, req_event_cycle = t,
                            req_scheduled = True\<rparr>))"

definition mk_bank :: "(nat option \<times> nat \<times> nat) \<Rightarrow> dram_bank" where
  "mk_bank x =
     (case x of (row, act, busy) \<Rightarrow>
        \<lparr>current_row = row, row_busy_until = act, bank_busy_until = busy\<rparr>)"

definition mk ::
    "nat \<Rightarrow> nat option list \<Rightarrow> (nat option \<times> nat \<times> nat) list \<Rightarrow> memory_controller" where
  "mk t ds bs =
     \<lparr>current_cycle = t, RQ = map2 mk_req (zip packet_stream arriv_time) ds,
      banks = map mk_bank bs\<rparr>"

definition dram_run ::
    "bool \<Rightarrow> dram_timing \<Rightarrow> nat \<Rightarrow> memory_controller \<Rightarrow> nat list \<Rightarrow> nat list option" where
  "dram_run rhf tm fuel c ord =
     dram_test_loop fuel rhf tm 21 c (map is_scheduled (RQ c)) ord"

subsection \<open>The page table walker test (test/602-asid-isolation.cc)\<close>

text \<open>
  Modelled from the spec: the page table walker (\<open>ptw.cc\<close>), the virtual memory (\<open>vmem.cc\<close>)
  and the two mocks of the test (\<open>mocks.hpp\<close>), none of which is among the sources. The test
  file gives the configuration: 5 levels, PTE pages of \<open>1 << 12\<close> bytes and the number 200 for
  the virtual memory, read as the minor fault penalty in cycles; the number 5 for the lower
  mock, read as the cycles it takes to answer; and for the walker, after the sizes of its
  caches, the numbers 2, 2, 1, 1, 1, of which the first two are read as the sizes of the
  queue and of the MSHR and the last as the latency. The spec gives the walker no limit on
  the packets or responses it handles in one cycle, and the model has none.
\<close>

record ptw_config =
  num_levels :: nat
  minor_fault_penalty :: nat
  ll_latency :: nat
  RQ_SIZE :: nat
  MSHR_SIZE :: nat
  HIT_LATENCY :: nat

definition testbench_config :: ptw_config where
  "testbench_config =
     \<lparr>num_levels = 5, minor_fault_penalty = 200, ll_latency = 5,
      RQ_SIZE = 2, MSHR_SIZE = 2, HIT_LATENCY = 1\<rparr>"

text \<open>
  A TRANSLATION packet carries its \<open>asid\<close> and virtual address. A walk in flight (an MSHR
  entry of the walker) is in the state \<open>ISSUED_L_n\<close> of the spec with \<open>n = translation_level\<close>;
  \<open>event_cycle\<close> is the cycle from which its read may go downstream and \<open>issued\<close> tells
  whether it went.
\<close>

record translation_packet =
  pkt_asid :: nat
  pkt_v_address :: u64

record ptw_mshr_entry =
  mshr_pkt :: translation_packet
  translation_level :: nat
  mshr_event_cycle :: nat
  mshr_issued :: bool

text \<open>
  The upper mock (\<open>to_rq_MRP\<close>) keeps every packet it issued with the time of its return,
  0 while the packet is out. The lower mock (\<open>do_nothing_MRC\<close>) keeps the reads it received
  with the cycle at which it answers, and counts them.
\<close>

record ul_packet =
  ul_pkt :: translation_packet
  return_time :: nat

record ll_request =
  ll_pkt :: translation_packet
  ll_ready :: nat

text \<open>
  The virtual memory keeps the page-table pages it has allocated, one for each
  \<open>(asid, level, virtual address >> shamt(level))\<close>: pages of different ASIDs are never
  shared. The shift amount is the one of the spec with \<open>LOG2_PAGE_SIZE = 12\<close>, PTE pages of
  \<open>2 ^ 12\<close> bytes and \<open>PTE_BYTES = 8\<close>.
\<close>

definition shamt :: "nat \<Rightarrow> nat" where
  "shamt level = 12 + (12 - 3) * (level - 1)"

type_synonym pte_key = "nat \<times> nat \<times> u64"

definition pte_key_of :: "translation_packet \<Rightarrow> nat \<Rightarrow> pte_key" where
  "pte_key_of pkt level = (pkt_asid pkt, level, drop_bit (shamt level) (pkt_v_address pkt))"

record testbench =
  tb_cycle :: nat
  ul_packets :: "ul_packet list"
  uut_RQ :: "translation_packet list"
  uut_MSHR :: "ptw_mshr_entry list"
  uut_returned :: "translation_packet list"
  page_table :: "pte_key list"
  ll_queue :: "ll_request list"
  ll_packet_count :: nat

text \<open>
  Two packets belong to the same walk when they agree on the ASID and on the virtual page.
\<close>

definition same_walk :: "translation_packet \<Rightarrow> translation_packet \<Rightarrow> bool" where
  "same_walk a b \<longleftrightarrow> pkt_asid a = pkt_asid b
     \<and> drop_bit 12 (pkt_v_address a) = drop_bit 12 (pkt_v_address b)"

text \<open>
  Modelled from the spec: a lookup of the page-table page of a level. A miss allocates the
  page and costs the minor fault penalty. The result is the penalty and the new table.
\<close>

definition get_pte_pa :: "ptw_config \<Rightarrow> pte_key list \<Rightarrow> translation_packet \<Rightarrow> nat
    \<Rightarrow> nat \<times> pte_key list" where
  "get_pte_pa cfg pt pkt level =
     (if pte_key_of pkt level \<in> set pt then (0, pt)
      else (minor_fault_penalty cfg, pt @ [pte_key_of pkt level]))"

text \<open>
  Modelled from the spec: \<open>issue(packet) -> bool\<close> on the read queue of the walker, which
  "fails when the queue is full". The upper mock records the packet it issued.
\<close>

definition issue :: "ptw_config \<Rightarrow> translation_packet \<Rightarrow> testbench \<Rightarrow> testbench option" where
  "issue cfg pkt tb =
     (if length (uut_RQ tb) < RQ_SIZE cfg
      then Some (tb\<lparr>uut_RQ := uut_RQ tb @ [pkt],
                     ul_packets := ul_packets tb @ [\<lparr>ul_pkt = pkt, return_time = 0\<rparr>]\<rparr>)
      else None)"

text \<open>
  Modelled from the spec: the transition of a walk on a downstream response. Above level 1
  the level is decremented and the next read is prepared, delayed by the latency of the
  walker and by the penalty of a minor fault. At level 1 the walk is complete: it leaves
  the MSHR and the packets of the upper mock that wait for it get the current cycle as
  their return time.
\<close>

fun handle_fill :: "ptw_config \<Rightarrow> translation_packet list \<Rightarrow> testbench \<Rightarrow> testbench" where
  "handle_fill cfg [] tb = tb"
| "handle_fill cfg (resp # resps) tb =
     handle_fill cfg resps
       (case filter (\<lambda>e. same_walk (mshr_pkt e) resp) (uut_MSHR tb) of
          [] \<Rightarrow> tb
        | e # _ \<Rightarrow>
            if 1 < translation_level e
            then (let (penalty, pt) =
                        get_pte_pa cfg (page_table tb) (mshr_pkt e) (translation_level e - 1)
                  in tb\<lparr>page_table := pt,
                        uut_MSHR := map (\<lambda>x. if same_walk (mshr_pkt x) resp
                            then x\<lparr>translation_level := translation_level e - 1,
                                   mshr_event_cycle := tb_cycle tb + penalty + HIT_LATENCY cfg,
                                   mshr_issued := False\<rparr>
                            else x) (uut_MSHR tb)\<rparr>)
            else tb\<lparr>uut_MSHR := filter (\<lambda>x. \<not> same_walk (mshr_pkt x) resp) (uut_MSHR tb),
                    ul_packets := map (\<lambda>u. if same_walk (ul_pkt u) resp \<and> return_time u = 0
                                           then u\<lparr>return_time := tb_cycle tb\<rparr> else u)
                                    (ul_packets tb)\<rparr>)"

text \<open>
  Modelled from the spec: the arrival of TRANSLATION packets. A packet whose walk is in
  flight joins it. Otherwise, while the MSHR has room, a packet starts a walk at the top
  level; with the MSHR full the packet and those behind it stay in the queue.
\<close>

fun handle_read :: "ptw_config \<Rightarrow> translation_packet list \<Rightarrow> testbench \<Rightarrow> testbench" where
  "handle_read cfg [] tb = tb\<lparr>uut_RQ := []\<rparr>"
| "handle_read cfg (pkt # pkts) tb =
     (if \<exists>e \<in> set (uut_MSHR tb). same_walk (mshr_pkt e) pkt
      then handle_read cfg pkts tb
      else if length (uut_MSHR tb) < MSHR_SIZE cfg
      then (let (penalty, pt) = get_pte_pa cfg (page_table tb) pkt (num_levels cfg)
            in handle_read cfg pkts
                 (tb\<lparr>page_table := pt,
                     uut_MSHR := uut_MSHR tb @
                       [\<lparr>mshr_pkt = pkt, translation_level = num_levels cfg,
                         mshr_event_cycle = tb_cycle tb + penalty + HIT_LATENCY cfg,
                         mshr_issued = False\<rparr>]\<rparr>))
      else tb\<lparr>uut_RQ := pkt # pkts\<rparr>)"

text \<open>
  Modelled from the spec: the reads that are due go downstream, one for each walk and
  level. The lower mock counts each of them and answers \<open>ll_latency\<close> cycles later.
\<close>

definition due :: "testbench \<Rightarrow> ptw_mshr_entry \<Rightarrow> bool" where
  "due tb e \<longleftrightarrow> \<not> mshr_issued e \<and> mshr_event_cycle e \<le> tb_cycle tb"

definition issue_reads :: "ptw_config \<Rightarrow> testbench \<Rightarrow> testbench" where
  "issue_reads cfg tb =
     tb\<lparr>ll_queue := ll_queue tb @
           map (\<lambda>e. \<lparr>ll_pkt = mshr_pkt e, ll_ready = tb_cycle tb + ll_latency cfg\<rparr>)
               (filter (due tb) (uut_MSHR tb)),
        ll_packet_count := ll_packet_count tb + length (filter (due tb) (uut_MSHR tb)),
        uut_MSHR := map (\<lambda>e. if due tb e then e\<lparr>mshr_issued := True\<rparr> else e) (uut_MSHR tb)\<rparr>"

definition uut_operate :: "ptw_config \<Rightarrow> testbench \<Rightarrow> testbench" where
  "uut_operate cfg tb =
     issue_reads cfg
       (handle_read cfg (uut_RQ tb)
          (handle_fill cfg (uut_returned tb) (tb\<lparr>uut_returned := []\<rparr>)))"

definition mock_ll_operate :: "testbench \<Rightarrow> testbench" where
  "mock_ll_operate tb =
     tb\<lparr>uut_returned := uut_returned tb
           @ map ll_pkt (filter (\<lambda>r. ll_ready r \<le> tb_cycle tb) (ll_queue tb)),
        ll_queue := filter (\<lambda>r. \<not> ll_ready r \<le> tb_cycle tb) (ll_queue tb)\<rparr>"

text \<open>
  One pass of the inner loop of the test, \<open>for (auto elem : elements) elem->_operate()\<close>,
  over the upper mock (which has nothing to do), the walker and the lower mock; then the
  clock advances.
\<close>

definition operate_elements :: "ptw_config \<Rightarrow> testbench \<Rightarrow> testbench" where
  "operate_elements cfg tb =
     (let tb' = mock_ll_operate (uut_operate cfg tb) in tb'\<lparr>tb_cycle := tb_cycle tb' + 1\<rparr>)"

text \<open>
  \<open>testbench::test\<close>: the two packets have the address \<open>0xdeadbeefdeadbeef\<close> and the ASIDs 0
  and 1. A failed \<open>REQUIRE\<close> on the result of \<open>issue\<close> ends the test: the result is \<open>None\<close>.
  The packets are parameters of \<open>test_packets\<close>, so that the test can also be run with two
  packets of one ASID.
\<close>

definition test_a :: translation_packet where
  "test_a = \<lparr>pkt_asid = 0, pkt_v_address = 0xdeadbeefdeadbeef\<rparr>"

definition test_b :: translation_packet where
  "test_b = \<lparr>pkt_asid = 1, pkt_v_address = 0xdeadbeefdeadbeef\<rparr>"

definition testbench_init :: testbench where
  "testbench_init =
     \<lparr>tb_cycle = 0, ul_packets = [], uut_RQ = [], uut_MSHR = [], uut_returned = [],
      page_table = [], ll_queue = [], ll_packet_count = 0\<rparr>"

definition test_packets ::
    "translation_packet \<Rightarrow> translation_packet \<Rightarrow> nat \<Rightarrow> testbench option" where
  "test_packets a b cycles_between_walks =
     (case issue testbench_config a testbench_init of
        None \<Rightarrow> None
      | Some tb1 \<Rightarrow>
          (case issue testbench_config b
                  ((operate_elements testbench_config ^^ cycles_between_walks) tb1) of
             None \<Rightarrow> None
           | Some tb2 \<Rightarrow> Some ((operate_elements testbench_config ^^ 10000) tb2)))"

definition test :: "nat \<Rightarrow> testbench option" where
  "test cycles_between_walks = test_packets test_a test_b cycles_between_walks"

text \<open>
  Notions for the proofs about the scenario. \<open>tb_quiet tb T\<close>: before cycle \<open>T\<close> no packet
  waits in the queue of the walker, no response waits for it, no read is due and the
  lower mock has no answer due. \<open>tb_run n\<close>: \<open>n\<close> passes of the loop of the test.
\<close>

definition tb_quiet :: "testbench \<Rightarrow> nat \<Rightarrow> bool" where
  "tb_quiet tb T \<longleftrightarrow> uut_RQ tb = [] \<and> uut_returned tb = []
     \<and> list_all (\<lambda>e. mshr_issued e \<or> T \<le> mshr_event_cycle e) (uut_MSHR tb)
     \<and> list_all (\<lambda>r. T \<le> ll_ready r) (ll_queue tb)"

definition tb_run :: "nat \<Rightarrow> testbench \<Rightarrow> testbench" where
  "tb_run n tb = (operate_elements testbench_config ^^ n) tb"

text \<open>
  The states of the scenario in short. Every packet has the address \<open>0xdeadbeefdeadbeef\<close>
  and is named by its ASID: \<open>uls\<close> gives the packets of the upper mock with their return
  times, \<open>rq\<close> the packets in the queue of the walker, \<open>ms\<close> the walks in flight with level,
  event cycle and issued flag, \<open>rs\<close> the responses that wait for the walker, \<open>pt\<close> the
  page-table pages by ASID and level, and \<open>ll\<close> the reads in the lower mock with their
  ready cycles.
\<close>

definition pk :: "nat \<Rightarrow> translation_packet" where
  "pk a = \<lparr>pkt_asid = a, pkt_v_address = 0xdeadbeefdeadbeef\<rparr>"

definition tb_state :: "nat \<Rightarrow> (nat \<times> nat) list \<Rightarrow> nat list \<Rightarrow> (nat \<times> nat \<times> nat \<times> bool) list
    \<Rightarrow> nat list \<Rightarrow> (nat \<times> nat) list \<Rightarrow> (nat \<times> nat) list \<Rightarrow> nat \<Rightarrow> testbench" where
  "tb_state t uls rq ms rs pt ll n =
     \<lparr>tb_cycle = t,
      ul_packets = map (\<lambda>(a, rt). \<lparr>ul_pkt = pk a, return_time = rt\<rparr>) uls,
      uut_RQ = map pk rq,
      uut_MSHR = map (\<lambda>(a, l, ev, i). \<lparr>mshr_pkt = pk a, translation_level = l,
                                         mshr_event_cycle = ev, mshr_issued = i\<rparr>) ms,
      uut_returned = map pk rs,
      page_table = map (\<lambda>(a, l). pte_key_of (pk a) l) pt,
      ll_queue = map (\<lambda>(a, rdy). \<lparr>ll_pkt = pk a, ll_ready = rdy\<rparr>) ll,
      ll_packet_count = n\<rparr>"

section \<open>Properties\<close>

subsection \<open>Address slices\<close>

lemma bit_bitmask: "bit (bitmask hi lo) n \<longleftrightarrow> lo \<le> n \<and> n < hi \<and> n < 64"
  by (auto simp: bitmask_def bit_simps)

lemma bit_splice_bits:
  "bit (splice_bits u l hi lo) n \<longleftrightarrow> (if lo \<le> n \<and> n < hi then bit l n else bit u n)"
  by (auto simp: splice_bits_def bit_simps bit_bitmask dest: bit_imp_le_length)

lemma and_bitmask_full: "w AND bitmask 64 0 = w"
  by (rule bit_word_eqI) (auto simp: bit_simps bit_bitmask)

lemma and_bitmask_bound: "unat (v AND bitmask n 0) < 2 ^ n"
proof -
  have "v AND bitmask n 0 = take_bit n v"
    by (simp add: bitmask_def take_bit_eq_mask)
  then show ?thesis
    by (simp add: unsigned_take_bit_eq)
qed

lemma drop_bitmask_bound: "unat (drop_bit lo (x AND bitmask hi lo)) < 2 ^ (hi - lo)"
proof -
  have "drop_bit lo (x AND bitmask hi lo) = take_bit (hi - lo) (drop_bit lo x)"
    by (rule bit_word_eqI) (auto simp: bitmask_def bit_simps dest: bit_imp_le_length)
  then show ?thesis
    by (simp add: unsigned_take_bit_eq)
qed

lemma address_slice_conv_bound:
  "unat (slice_value (address_slice_conv ext s)) < 2 ^ (upper ext - lower ext)"
  using drop_bitmask_bound [of "lower ext" "push_bit (lower_extent s) (slice_value s)" "upper ext"]
  by (simp add: address_slice_conv_def)

lemma operator_add_assign_bound:
  "unat (slice_value (operator_add_assign s d)) < 2 ^ (upper_extent s - lower_extent s)"
  by (simp add: operator_add_assign_def and_bitmask_bound)

text \<open>
  C1. A slice built from an extent \<open>[lo, hi)\<close> with \<open>lo \<le> hi \<le> 64\<close> and a raw integer, or
  converted from a slice of any other extent (to a given extent, or to a dynamic extent that
  copies the bounds), stores a value below \<open>2 ^ (hi - lo)\<close>; and after \<open>+=\<close>, \<open>-=\<close>, \<open>++\<close> and
  \<open>--\<close> on a slice the stored value is below \<open>2 ^ (hi - lo)\<close> again and the extent is the
  same, whatever the value was before.
\<close>

theorem address_slice_value_in_extent:
  assumes "extent_ok ext" and "extent_ok (slice_extent s)"
  shows "unat (slice_value (address_slice_raw ext v)) < 2 ^ (upper ext - lower ext)
       \<and> slice_extent (address_slice_raw ext v) = ext
       \<and> unat (slice_value (address_slice_conv ext other)) < 2 ^ (upper ext - lower ext)
       \<and> slice_extent (address_slice_conv ext other) = ext
       \<and> unat (slice_value (address_slice_copy s)) < 2 ^ (upper_extent s - lower_extent s)
       \<and> unat (slice_value (operator_add_assign s d)) < 2 ^ (upper_extent s - lower_extent s)
       \<and> unat (slice_value (operator_sub_assign s d)) < 2 ^ (upper_extent s - lower_extent s)
       \<and> unat (slice_value (operator_inc s)) < 2 ^ (upper_extent s - lower_extent s)
       \<and> unat (slice_value (operator_dec s)) < 2 ^ (upper_extent s - lower_extent s)
       \<and> slice_extent (operator_add_assign s d) = slice_extent s
       \<and> slice_extent (operator_sub_assign s d) = slice_extent s
       \<and> slice_extent (operator_inc s) = slice_extent s
       \<and> slice_extent (operator_dec s) = slice_extent s"
proof -
  have raw: "unat (slice_value (address_slice_raw ext v)) < 2 ^ (upper ext - lower ext)"
    by (simp add: address_slice_raw_def and_bitmask_bound)
  have raw_ext: "slice_extent (address_slice_raw ext v) = ext"
    by (simp add: address_slice_raw_def)
  have conv: "unat (slice_value (address_slice_conv ext other)) < 2 ^ (upper ext - lower ext)"
    by (rule address_slice_conv_bound)
  have conv_ext: "slice_extent (address_slice_conv ext other) = ext"
    by (simp add: address_slice_conv_def)
  have copy: "unat (slice_value (address_slice_copy s)) < 2 ^ (upper_extent s - lower_extent s)"
    using address_slice_conv_bound [of "\<lparr>upper = upper_extent s, lower = lower_extent s\<rparr>" s]
    by (simp add: address_slice_copy_def)
  have add: "unat (slice_value (operator_add_assign s x)) < 2 ^ (upper_extent s - lower_extent s)"
    for x by (rule operator_add_assign_bound)
  have ext: "slice_extent (operator_add_assign s x) = slice_extent s" for x
    by (simp add: operator_add_assign_def)
  show ?thesis
    unfolding operator_sub_assign_def operator_inc_def operator_dec_def
    by (intro conjI raw raw_ext conv conv_ext copy add ext)
qed

theorem address_slice_value_in_extent_witness:
  "extent_ok \<lparr>upper = 12, lower = 6\<rparr>
   \<and> extent_ok (slice_extent (address_slice_static \<lparr>upper = 4, lower = 0\<rparr> 15))
   \<and> slice_value (address_slice_raw \<lparr>upper = 12, lower = 6\<rparr> 0xFFFF) = 0x3F
   \<and> unat (slice_value (address_slice_raw \<lparr>upper = 12, lower = 6\<rparr> 0xFFFF)) < 2 ^ (12 - 6)
   \<and> slice_value (operator_inc (address_slice_static \<lparr>upper = 4, lower = 0\<rparr> 15)) = 0
   \<and> unat (slice_value (operator_inc (address_slice_static \<lparr>upper = 4, lower = 0\<rparr> 15))) < 2 ^ (4 - 0)
   \<and> slice_value (operator_dec (address_slice_static \<lparr>upper = 4, lower = 0\<rparr> 0)) = 15"
proof -
  have e: "extent_ok \<lparr>upper = 12, lower = 6\<rparr>"
    by (simp add: extent_ok_def)
  have s: "extent_ok (slice_extent (address_slice_static \<lparr>upper = 4, lower = 0\<rparr> 15))"
    by (simp add: extent_ok_def address_slice_static_def)
  have v: "slice_value (address_slice_raw \<lparr>upper = 12, lower = 6\<rparr> 0xFFFF) = 0x3F"
    by (simp add: address_slice_raw_def bitmask_def mask_numeral)
  have i: "slice_value (operator_inc (address_slice_static \<lparr>upper = 4, lower = 0\<rparr> 15)) = 0"
    by (simp add: operator_inc_def operator_add_assign_def address_slice_static_def
        upper_extent_def lower_extent_def bitmask_def mask_numeral)
  have d: "slice_value (operator_dec (address_slice_static \<lparr>upper = 4, lower = 0\<rparr> 0)) = 15"
    by (simp add: operator_dec_def operator_sub_assign_def operator_add_assign_def
        address_slice_static_def upper_extent_def lower_extent_def bitmask_def mask_numeral)
  show ?thesis
    using e s v i d
      address_slice_value_in_extent [OF e s, of "0xFFFF" other d for other d]
    by (simp add: upper_extent_def lower_extent_def address_slice_static_def)
qed

lemma PAGE_SIZE_minus_1: "PAGE_SIZE n - 1 = mask n"
  by (simp add: PAGE_SIZE_def mask_eq_exp_minus_1 push_bit_eq_mult)

lemma splice_two_value:
  "slice_value (splice_slices a [b]) =
     splice_bits
       (push_bit (lower_extent a - min (lower_extent a) (lower_extent b)) (slice_value a))
       (push_bit (lower_extent b - min (lower_extent a) (lower_extent b)) (slice_value b))
       (upper_extent b - min (lower_extent a) (lower_extent b))
       (lower_extent b - min (lower_extent a) (lower_extent b))
     AND bitmask (max (upper_extent a) (upper_extent b) - min (lower_extent a) (lower_extent b)) 0"
  by (simp add: splice_slices_def wrap_def wrapper_plus_def wrapper_address_def address_slice_raw_def
      extent_union_def Let_def upper_extent_def lower_extent_def)

lemma splice_two_bit:
  assumes a: "extent_ok (slice_extent a)" and b: "extent_ok (slice_extent b)"
    and lo: "min (lower_extent a) (lower_extent b) \<le> i"
    and hi: "i < max (upper_extent a) (upper_extent b)"
  shows "bit (slice_value (splice_slices a [b])) (i - min (lower_extent a) (lower_extent b)) =
         (if lower_extent b \<le> i \<and> i < upper_extent b
          then bit (slice_value b) (i - lower_extent b)
          else lower_extent a \<le> i \<and> bit (slice_value a) (i - lower_extent a))"
proof -
  define la lb ua ub
    where "la = lower_extent a" and "lb = lower_extent b"
      and "ua = upper_extent a" and "ub = upper_extent b"
  define n where "n = i - min la lb"
  have bounds: "la \<le> ua" "ua \<le> 64" "lb \<le> ub" "ub \<le> 64"
    using a b
    by (simp_all add: extent_ok_def la_def lb_def ua_def ub_def upper_extent_def lower_extent_def)
  have n64: "n < 64" and nw: "n < max ua ub - min la lb" and i: "i = n + min la lb"
    using lo hi bounds
    unfolding n_def la_def [symmetric] lb_def [symmetric] ua_def [symmetric] ub_def [symmetric]
    by auto
  have "bit (slice_value (splice_slices a [b])) n =
      (if lb - min la lb \<le> n \<and> n < ub - min la lb
       then bit (push_bit (lb - min la lb) (slice_value b)) n
       else bit (push_bit (la - min la lb) (slice_value a)) n)"
    unfolding splice_two_value la_def [symmetric] lb_def [symmetric] ua_def [symmetric]
      ub_def [symmetric]
    using n64 nw by (simp add: bit_simps bit_bitmask bit_splice_bits)
  also have "\<dots> = (if lb \<le> i \<and> i < ub then bit (slice_value b) (i - lb)
                     else la \<le> i \<and> bit (slice_value a) (i - la))"
    using n64 bounds unfolding i by (auto simp: bit_simps min_def split: if_splits)
  finally show ?thesis
    unfolding n_def la_def lb_def ua_def ub_def .
qed

text \<open>
  C3. With \<open>LOG2_PAGE_SIZE < 64\<close>, for all 64-bit \<open>x\<close> and \<open>y\<close>,
  \<open>splice(page_number{x}, page_offset{y})\<close> is the slice
  \<open>address{(x << LOG2_PAGE_SIZE) | (y & (PAGE_SIZE - 1))}\<close>, and \<open>==\<close> on the two returns true.
  For any two slices with well-formed extents, every bit of the splice that lies in the
  extent of the second (later) argument is that argument's bit, also where the first
  argument covers the same position; the remaining bits come from the first argument.
\<close>

theorem splice_page_number_page_offset:
  assumes "log2_page_size < 64"
    and "extent_ok (slice_extent a)" and "extent_ok (slice_extent b)"
  shows "splice_slices (page_number log2_page_size x) [page_offset log2_page_size y]
           = address (push_bit log2_page_size x OR (y AND (PAGE_SIZE log2_page_size - 1)))
       \<and> operator_eq (splice_slices (page_number log2_page_size x) [page_offset log2_page_size y])
            (address (push_bit log2_page_size x OR (y AND (PAGE_SIZE log2_page_size - 1))))
           = Inr True
       \<and> slice_extent (splice_slices a [b])
           = \<lparr>upper = max (upper_extent a) (upper_extent b),
              lower = min (lower_extent a) (lower_extent b)\<rparr>
       \<and> (\<forall>i. min (lower_extent a) (lower_extent b) \<le> i \<and> i < max (upper_extent a) (upper_extent b)
             \<longrightarrow> bit (slice_value (splice_slices a [b])) (i - min (lower_extent a) (lower_extent b))
                 = (if lower_extent b \<le> i \<and> i < upper_extent b
                    then bit (slice_value b) (i - lower_extent b)
                    else lower_extent a \<le> i \<and> bit (slice_value a) (i - lower_extent a)))"
proof -
  let ?n = log2_page_size
  have m: "max 64 ?n = 64"
    using assms(1) by simp
  have "splice_bits (push_bit ?n x) y ?n 0 = push_bit ?n x OR (y AND mask ?n)"
    by (rule bit_word_eqI) (auto simp: bit_simps bit_splice_bits)
  then have eq: "splice_slices (page_number ?n x) [page_offset ?n y]
                 = address (push_bit ?n x OR (y AND (PAGE_SIZE ?n - 1)))"
    by (simp add: splice_slices_def page_number_def page_offset_def address_def wrap_def
        wrapper_plus_def wrapper_address_def address_slice_raw_def address_slice_static_def
        extent_union_def Let_def PAGE_SIZE_minus_1 m and_bitmask_full)
  have cmp: "operator_eq (splice_slices (page_number ?n x) [page_offset ?n y])
               (address (push_bit ?n x OR (y AND (PAGE_SIZE ?n - 1)))) = Inr True"
    unfolding eq by (simp add: operator_eq_def)
  have ext: "slice_extent (splice_slices a [b])
           = \<lparr>upper = max (upper_extent a) (upper_extent b),
              lower = min (lower_extent a) (lower_extent b)\<rparr>"
    by (simp add: splice_slices_def wrap_def wrapper_plus_def wrapper_address_def address_slice_raw_def
        extent_union_def Let_def upper_extent_def lower_extent_def)
  show ?thesis
    using eq cmp ext splice_two_bit [OF assms(2,3)] by blast
qed

theorem splice_page_number_page_offset_witness:
  "(12::nat) < 64
   \<and> extent_ok (slice_extent (address_slice_static \<lparr>upper = 8, lower = 0\<rparr> 0xAB))
   \<and> extent_ok (slice_extent (address_slice_static \<lparr>upper = 12, lower = 4\<rparr> 0xCD))
   \<and> splice_slices (page_number 12 0xAAA) [page_offset 12 0xFBBB] = address 0xAAABBB
   \<and> slice_extent (splice_slices (address_slice_static \<lparr>upper = 8, lower = 0\<rparr> 0xAB)
                       [address_slice_static \<lparr>upper = 12, lower = 4\<rparr> 0xCD])
       = \<lparr>upper = 12, lower = 0\<rparr>"
proof -
  have e1: "extent_ok (slice_extent (address_slice_static \<lparr>upper = 8, lower = 0\<rparr> 0xAB))"
    by (simp add: extent_ok_def address_slice_static_def)
  have e2: "extent_ok (slice_extent (address_slice_static \<lparr>upper = 12, lower = 4\<rparr> 0xCD))"
    by (simp add: extent_ok_def address_slice_static_def)
  have l: "(12::nat) < 64"
    by simp
  show ?thesis
    using e1 e2 l splice_page_number_page_offset [OF l e1 e2, of "0xAAA" "0xFBBB"]
    by (simp add: PAGE_SIZE_def upper_extent_def lower_extent_def address_slice_static_def)
qed

text \<open>
  The operators \<open>==\<close>, \<open>!=\<close>, \<open><\<close> and \<open><=\<close> throw \<open>std::invalid_argument\<close> when the bounds of
  the two slices differ.
\<close>

lemma checked_comparisons_throw:
  assumes "upper_extent a \<noteq> upper_extent b \<or> lower_extent a \<noteq> lower_extent b"
  shows "operator_eq a b = Inl invalid_argument" "operator_ne a b = Inl invalid_argument"
    "operator_lt a b = Inl invalid_argument" "operator_le a b = Inl invalid_argument"
  using assms by (auto simp: operator_eq_def operator_ne_def operator_lt_def operator_le_def)

text \<open>
  C4. For two slices of a dynamic extent with different bounds, \<open>[0, 8)\<close> holding 5 and
  \<open>[0, 16)\<close> holding 3, \<open>operator>\<close> and \<open>operator>=\<close> return true instead of throwing
  \<open>std::invalid_argument\<close>, while \<open>operator==\<close> on the same pair throws.
\<close>

theorem operator_gt_ignores_extents:
  "operator_gt (address_slice_raw \<lparr>upper = 8, lower = 0\<rparr> 5)
               (address_slice_raw \<lparr>upper = 16, lower = 0\<rparr> 3) = Inr True
   \<and> operator_ge (address_slice_raw \<lparr>upper = 8, lower = 0\<rparr> 5)
                 (address_slice_raw \<lparr>upper = 16, lower = 0\<rparr> 3) = Inr True
   \<and> operator_eq (address_slice_raw \<lparr>upper = 8, lower = 0\<rparr> 5)
                 (address_slice_raw \<lparr>upper = 16, lower = 0\<rparr> 3) = Inl invalid_argument"
  by (simp add: operator_gt_def operator_ge_def operator_eq_def address_slice_raw_def
      upper_extent_def lower_extent_def bitmask_def mask_numeral)

lemma uint_abs_diff:
  fixes a b :: u64
  shows "uint (if a > b then a - b else b - a) = \<bar>uint b - uint a\<bar>"
  by (auto simp: word_less_def word_le_def not_less uint_sub_if' abs_if)

lemma sint_word_of_int_64:
  "- (2 ^ 63) \<le> (d::int) \<Longrightarrow> d < 2 ^ 63 \<Longrightarrow> sint (word_of_int d :: u64) = d"
  by (simp add: sint_sbintrunc' signed_take_bit_int_eq_self)

lemma offset_eq:
  "offset base other =
     (if \<bar>uint (slice_value other) - uint (slice_value base)\<bar> \<le> 2 ^ 63 - 1
      then Inr (word_of_int (uint (slice_value other) - uint (slice_value base)))
      else Inl overflow_error)"
proof -
  let ?a = "slice_value base" and ?b = "slice_value other"
  define ad where "ad = (if ?a > ?b then ?a - ?b else ?b - ?a)"
  have u: "uint ad = \<bar>uint ?b - uint ?a\<bar>"
    unfolding ad_def by (rule uint_abs_diff)
  have "ad > 0x7FFFFFFFFFFFFFFF \<longleftrightarrow> uint ad > uint (0x7FFFFFFFFFFFFFFF :: u64)"
    by (rule word_less_def)
  then have gt: "ad > 0x7FFFFFFFFFFFFFFF \<longleftrightarrow> \<bar>uint ?b - uint ?a\<bar> > 2 ^ 63 - 1"
    unfolding u by simp
  have neg: "?a > ?b \<Longrightarrow> - ad = word_of_int (uint ?b - uint ?a)"
    by (simp add: word_less_def ad_def)
  have pos: "\<not> ?a > ?b \<Longrightarrow> ad = word_of_int (uint ?b - uint ?a)"
    by (simp add: word_less_def ad_def)
  have "offset base other =
          (if ad > 0x7FFFFFFFFFFFFFFF then Inl overflow_error
           else Inr (if ?a > ?b then - ad else ad))"
    by (simp add: offset_def Let_def ad_def)
  then show ?thesis
    using gt neg pos by (auto simp: not_less not_le)
qed

text \<open>
  C8. Let \<open>D\<close> be the difference of the stored values, \<open>other - base\<close>, as an integer. If
  \<open>\<bar>D\<bar> \<le> 2 ^ 63 - 1\<close> then \<open>offset(base, other)\<close> returns the signed 64-bit number \<open>D\<close>;
  otherwise it throws \<open>std::overflow_error\<close>. It never returns a wrapped value.
\<close>

theorem offset_exact_or_overflow:
  "(\<bar>uint (slice_value other) - uint (slice_value base)\<bar> \<le> 2 ^ 63 - 1
      \<longrightarrow> (\<exists>d. offset base other = Inr d
                \<and> sint d = uint (slice_value other) - uint (slice_value base)))
   \<and> (\<bar>uint (slice_value other) - uint (slice_value base)\<bar> > 2 ^ 63 - 1
      \<longrightarrow> offset base other = Inl overflow_error)"
  using offset_eq [of base other]
    sint_word_of_int_64 [of "uint (slice_value other) - uint (slice_value base)"]
  by auto

theorem offset_exact_or_overflow_witness:
  "\<bar>uint (slice_value (address 3)) - uint (slice_value (address 5))\<bar> \<le> 2 ^ 63 - 1
   \<and> (\<exists>d. offset (address 5) (address 3) = Inr d \<and> sint d = - 2)
   \<and> \<bar>uint (slice_value (address 0x8000000000000000)) - uint (slice_value (address 0))\<bar>
       > 2 ^ 63 - 1
   \<and> offset (address 0) (address 0x8000000000000000) = Inl overflow_error"
proof -
  have a: "uint (slice_value (address 3)) - uint (slice_value (address 5)) = - 2"
    by (simp add: address_def address_slice_static_def)
  have b: "uint (slice_value (address 0x8000000000000000)) - uint (slice_value (address 0))
           = 2 ^ 63"
    by (simp add: address_def address_slice_static_def)
  show ?thesis
    using offset_exact_or_overflow [of "address 3" "address 5"]
      offset_exact_or_overflow [of "address 0x8000000000000000" "address 0"]
    unfolding a b by simp
qed

subsection \<open>Dependency lists\<close>

lemma set_inplace_merge: "set (inplace_merge xs ys) = set xs \<union> set ys"
  by (induction xs ys rule: inplace_merge.induct) auto

lemma sorted_inplace_merge: "sorted xs \<Longrightarrow> sorted ys \<Longrightarrow> sorted (inplace_merge xs ys)"
  by (induction xs ys rule: inplace_merge.induct) (auto simp: set_inplace_merge)

lemma set_unique: "set (unique xs) = set xs"
  by (induction xs rule: unique.induct) auto

lemma sorted_unique: "sorted xs \<Longrightarrow> sorted (unique xs)"
  by (induction xs rule: unique.induct) (auto simp: set_unique)

lemma distinct_unique: "sorted xs \<Longrightarrow> distinct (unique xs)"
  by (induction xs rule: unique.induct) (auto simp: set_unique)

text \<open>
  C6. If \<open>dest\<close> and \<open>src\<close> are each sorted, then after \<open>packet_dep_merge(dest, src)\<close> the
  list \<open>dest\<close> is sorted, holds every element once, and its elements are exactly those of
  the two inputs.
\<close>

theorem packet_dep_merge_sorted_union:
  assumes "sorted dest" and "sorted src"
  shows "sorted (packet_dep_merge dest src)
       \<and> distinct (packet_dep_merge dest src)
       \<and> set (packet_dep_merge dest src) = set dest \<union> set src"
  using assms
  by (simp add: packet_dep_merge_def sorted_unique distinct_unique set_unique
      sorted_inplace_merge set_inplace_merge)

theorem packet_dep_merge_sorted_union_witness:
  "sorted [1, 3, 3, 5 :: nat] \<and> sorted [2, 3, 6 :: nat]
   \<and> packet_dep_merge [1, 3, 3, 5 :: nat] [2, 3, 6] = [1, 2, 3, 5, 6]
   \<and> sorted (packet_dep_merge [1, 3, 3, 5 :: nat] [2, 3, 6])
   \<and> distinct (packet_dep_merge [1, 3, 3, 5 :: nat] [2, 3, 6])
   \<and> set (packet_dep_merge [1, 3, 3, 5 :: nat] [2, 3, 6]) = set [1, 3, 3, 5] \<union> set [2, 3, 6]"
proof -
  have a: "sorted [1, 3, 3, 5 :: nat]" and b: "sorted [2, 3, 6 :: nat]"
    by simp_all
  have v: "packet_dep_merge [1, 3, 3, 5 :: nat] [2, 3, 6] = [1, 2, 3, 5, 6]"
    by (simp add: packet_dep_merge_def)
  show ?thesis
    using a b v packet_dep_merge_sorted_union [OF a b] by blast
qed

subsection \<open>Instructions\<close>

lemma ucast_twice_u8: "(ucast (ucast (a :: u8) :: u16) :: u32) = ucast a"
  by (rule bit_word_eqI) (auto simp: bit_simps dest: bit_imp_le_length)

lemma unat_ucast_u8: "unat (ucast (a :: u8) :: u32) = unat a"
proof -
  have "unat a < 2 ^ 8"
    using unsigned_less [of a] by simp
  then have "unat a < 2 ^ 32"
    by simp
  then have "take_bit 32 (unat a) = unat a"
    by (rule take_bit_nat_eq_self)
  then show ?thesis
    by (simp add: unsigned_ucast_eq)
qed

lemma unat_asid_bytes:
  fixes a0 a1 :: u8
  shows "unat (ucast (push_bit 8 (ucast (ucast a1 :: u16) :: u32) + (ucast a0 :: u32)) :: u16)
         = unat a1 * 256 + unat a0"
proof -
  have a: "unat a1 < 256" "unat a0 < 256"
    using unsigned_less [of a1] unsigned_less [of a0] by simp_all
  have hi: "unat (push_bit 8 (ucast a1 :: u32)) = unat a1 * 256"
    using a unfolding unsigned_push_bit_eq unat_ucast_u8
    by (simp add: take_bit_nat_eq_self push_bit_eq_mult)
  have sum: "unat (push_bit 8 (ucast a1 :: u32) + (ucast a0 :: u32)) = unat a1 * 256 + unat a0"
    using a unfolding unat_word_ariths hi unat_ucast_u8 by simp
  have "unat (ucast (push_bit 8 (ucast a1 :: u32) + (ucast a0 :: u32)) :: u16)
        = unat a1 * 256 + unat a0"
    using a unfolding unsigned_ucast_eq sum by (simp add: take_bit_nat_eq_self)
  then show ?thesis
    unfolding ucast_twice_u8 .
qed

text \<open>
  C10. An \<open>ooo_model_instr\<close> built from a cloudsuite record has
  \<open>asid = asid[1] * 256 + asid[0]\<close>; one built from a standard record has \<open>asid = 65535\<close>,
  so any two instructions built from standard records have the same \<open>asid\<close>.
\<close>

theorem ooo_model_instr_asid:
  "unat (asid (of_cloudsuite_instr c)) = unat (cs_asid c ! 1) * 256 + unat (cs_asid c ! 0)
   \<and> asid (of_input_instr i) = 65535
   \<and> unat (asid (of_input_instr i)) = 2 ^ 16 - 1
   \<and> asid (of_input_instr i) = asid (of_input_instr j)"
  by (simp only: of_cloudsuite_instr_def ooo_model_instr_cloudsuite_def unat_asid_bytes
      of_input_instr_def ooo_model_instr_input_def ooo_model_instr.select_convs) simp

subsection \<open>LRU replacement\<close>

text \<open>
  A fresh policy has a table of zeros and the counter 0. Its first update that is not a
  writeback hit, a read hit or the fill after a miss, writes 0 over 0: the table is the one
  before the call although the access is no writeback hit. And when \<open>set * NUM_WAY + way\<close> is
  not an index of the table, the access is no writeback hit either, no entry is set and the
  call throws, the counter advanced. (\<open>WRITE\<close> is 3 here; \<open>type\<close> 0 is a load.)
\<close>

theorem table_unchanged_without_writeback_hit:
  "update_replacement_state 3 \<lparr>NUM_WAY = 2, last_used_cycles = [0, 0, 0, 0], cycle = 0\<rparr> 0 0 0 1
     = Inr \<lparr>NUM_WAY = 2, last_used_cycles = [0, 0, 0, 0], cycle = 1\<rparr>
   \<and> update_replacement_state 3 \<lparr>NUM_WAY = 2, last_used_cycles = [0, 0, 0, 0], cycle = 0\<rparr> 0 0 3 0
     = Inr \<lparr>NUM_WAY = 2, last_used_cycles = [0, 0, 0, 0], cycle = 1\<rparr>
   \<and> update_replacement_state 3 \<lparr>NUM_WAY = 2, last_used_cycles = [10, 2, 8, 4], cycle = 11\<rparr> 2 0 0 1
     = Inl (out_of_range, \<lparr>NUM_WAY = 2, last_used_cycles = [10, 2, 8, 4], cycle = 12\<rparr>)"
  by (simp add: update_replacement_state_def at_index_def)

text \<open>
  C9, amended. Let \<open>set * NUM_WAY + way\<close> be computed without overflow of \<open>long\<close>, on a table of
  fewer than \<open>2^63\<close> entries. On a writeback hit (\<open>hit\<close> non-zero and \<open>type == WRITE\<close>)
  \<open>update_replacement_state\<close> returns with the state of the policy, table and counter, as
  before the call. In every other case the counter advances by one. If
  \<open>set * NUM_WAY + way\<close> is an index of the table, the call returns, the entry at that index
  is the value the counter had before the call, all other entries and the length are as
  before, and the table is the one before the call exactly when the entry held that value
  already. If it is not an index of the table, the call throws \<open>std::out_of_range\<close> and the
  table is as before.
\<close>

theorem update_replacement_state_effect:
  assumes "- (2 ^ 63) \<le> set' * NUM_WAY s" and "set' * NUM_WAY s < 2 ^ 63"
    and "- (2 ^ 63) \<le> set' * NUM_WAY s + way" and "set' * NUM_WAY s + way < 2 ^ 63"
    and "length (last_used_cycles s) < 2 ^ 63"
  shows "(hit \<noteq> 0 \<and> type' = WRITE
            \<longrightarrow> update_replacement_state WRITE s set' way type' hit = Inr s)
       \<and> (\<not> (hit \<noteq> 0 \<and> type' = WRITE)
            \<and> 0 \<le> set' * NUM_WAY s + way
            \<and> set' * NUM_WAY s + way < int (length (last_used_cycles s))
            \<longrightarrow> (\<exists>s'. update_replacement_state WRITE s set' way type' hit = Inr s'
                 \<and> last_used_cycles s'
                     = (last_used_cycles s)[nat (set' * NUM_WAY s + way) := cycle s]
                 \<and> length (last_used_cycles s') = length (last_used_cycles s)
                 \<and> last_used_cycles s' ! nat (set' * NUM_WAY s + way) = cycle s
                 \<and> (\<forall>j < length (last_used_cycles s). j \<noteq> nat (set' * NUM_WAY s + way)
                       \<longrightarrow> last_used_cycles s' ! j = last_used_cycles s ! j)
                 \<and> (last_used_cycles s' = last_used_cycles s
                       \<longleftrightarrow> last_used_cycles s ! nat (set' * NUM_WAY s + way) = cycle s)
                 \<and> cycle s' = cycle s + 1
                 \<and> NUM_WAY s' = NUM_WAY s))
       \<and> (\<not> (hit \<noteq> 0 \<and> type' = WRITE)
            \<and> \<not> (0 \<le> set' * NUM_WAY s + way
                  \<and> set' * NUM_WAY s + way < int (length (last_used_cycles s)))
            \<longrightarrow> update_replacement_state WRITE s set' way type' hit
                  = Inl (out_of_range, s\<lparr>cycle := cycle s + 1\<rparr>))"
proof -
  let ?i = "set' * NUM_WAY s + way"
  let ?n = "length (last_used_cycles s)"
  have wb: "update_replacement_state WRITE s set' way type' hit = Inr s"
    if "hit \<noteq> 0 \<and> type' = WRITE"
    using that by (simp add: update_replacement_state_def)
  have inside: "\<exists>s'. update_replacement_state WRITE s set' way type' hit = Inr s'
        \<and> last_used_cycles s' = (last_used_cycles s)[nat ?i := cycle s]
        \<and> length (last_used_cycles s') = ?n
        \<and> last_used_cycles s' ! nat ?i = cycle s
        \<and> (\<forall>j < ?n. j \<noteq> nat ?i \<longrightarrow> last_used_cycles s' ! j = last_used_cycles s ! j)
        \<and> (last_used_cycles s' = last_used_cycles s \<longleftrightarrow> last_used_cycles s ! nat ?i = cycle s)
        \<and> cycle s' = cycle s + 1
        \<and> NUM_WAY s' = NUM_WAY s"
    if nwb: "\<not> (hit \<noteq> 0 \<and> type' = WRITE)" and lo: "0 \<le> ?i" and hi: "?i < int ?n"
  proof -
    have "?i mod 2 ^ 64 = ?i"
      using lo assms(4) by simp
    then have i: "at_index ?i = nat ?i"
      by (simp add: at_index_def)
    have lt: "nat ?i < ?n"
      using lo hi by linarith
    have same: "(last_used_cycles s)[nat ?i := cycle s] = last_used_cycles s
        \<longleftrightarrow> last_used_cycles s ! nat ?i = cycle s"
      using lt by (metis list_update_id nth_list_update_eq)
    have r: "update_replacement_state WRITE s set' way type' hit
        = Inr (s\<lparr>cycle := cycle s + 1,
                 last_used_cycles := (last_used_cycles s)[nat ?i := cycle s]\<rparr>)"
      using nwb i lt by (auto simp: update_replacement_state_def Let_def)
    show ?thesis
      unfolding r using lt same by simp
  qed
  have outside: "update_replacement_state WRITE s set' way type' hit
        = Inl (out_of_range, s\<lparr>cycle := cycle s + 1\<rparr>)"
    if nwb: "\<not> (hit \<noteq> 0 \<and> type' = WRITE)" and out: "\<not> (0 \<le> ?i \<and> ?i < int ?n)"
  proof -
    have "int ?n \<le> ?i mod 2 ^ 64"
    proof (cases "0 \<le> ?i")
      case True
      then have "?i mod 2 ^ 64 = ?i"
        using assms(4) by simp
      then show ?thesis
        using True out by simp
    next
      case False
      have "?i mod 2 ^ 64 = (?i + 2 ^ 64) mod 2 ^ 64"
        by simp
      also have "\<dots> = ?i + 2 ^ 64"
        using False assms(3) by (intro mod_pos_pos_trivial) simp_all
      finally show ?thesis
        using assms(3) assms(5) by simp
    qed
    then have "\<not> at_index ?i < ?n"
      by (simp add: at_index_def)
    then show ?thesis
      using nwb by (auto simp: update_replacement_state_def Let_def)
  qed
  show ?thesis
    using wb inside outside by blast
qed

theorem update_replacement_state_effect_witness:
  "update_replacement_state 3 \<lparr>NUM_WAY = 2, last_used_cycles = [10, 2, 8, 4], cycle = 11\<rparr> 1 0 3 1
       = Inr \<lparr>NUM_WAY = 2, last_used_cycles = [10, 2, 8, 4], cycle = 11\<rparr>
   \<and> (\<exists>s'. update_replacement_state 3 \<lparr>NUM_WAY = 2, last_used_cycles = [10, 2, 8, 4], cycle = 11\<rparr> 1 0 0 1
           = Inr s'
         \<and> last_used_cycles s' = [10, 2, 11, 4] \<and> cycle s' = 12)
   \<and> update_replacement_state 3 \<lparr>NUM_WAY = 2, last_used_cycles = [10, 2, 8, 4], cycle = 11\<rparr> 2 0 0 1
       = Inl (out_of_range, \<lparr>NUM_WAY = 2, last_used_cycles = [10, 2, 8, 4], cycle = 12\<rparr>)
   \<and> update_replacement_state 3 \<lparr>NUM_WAY = 2, last_used_cycles = [10, 2, 8, 4], cycle = 11\<rparr> 0 (- 1) 0 1
       = Inl (out_of_range, \<lparr>NUM_WAY = 2, last_used_cycles = [10, 2, 8, 4], cycle = 12\<rparr>)"
proof -
  let ?s = "\<lparr>NUM_WAY = 2, last_used_cycles = [10, 2, 8, 4], cycle = 11\<rparr>"
  have n: "length (last_used_cycles ?s) < 2 ^ 63"
    by simp
  have a: "update_replacement_state 3 ?s 1 0 3 1 = Inr ?s"
    using update_replacement_state_effect [of 1 ?s 0 1 3 3, OF _ _ _ _ n] by simp
  have b: "\<exists>s'. update_replacement_state 3 ?s 1 0 0 1 = Inr s'
      \<and> last_used_cycles s' = [10, 2, 11, 4] \<and> cycle s' = 12"
    using update_replacement_state_effect [of 1 ?s 0 1 0 3, OF _ _ _ _ n] by auto
  have c: "update_replacement_state 3 ?s 2 0 0 1 = Inl (out_of_range, ?s\<lparr>cycle := 12\<rparr>)"
    using update_replacement_state_effect [of 2 ?s 0 1 0 3, OF _ _ _ _ n] by simp
  have d: "update_replacement_state 3 ?s 0 (- 1) 0 1 = Inl (out_of_range, ?s\<lparr>cycle := 12\<rparr>)"
    using update_replacement_state_effect [of 0 ?s "- 1" 1 0 3, OF _ _ _ _ n] by simp
  show ?thesis
    using a b c d by simp
qed

subsection \<open>Detection of module hooks\<close>

text \<open>
  C7, as the claim states it, fails: a replacement module that implements both variants of
  \<open>find_victim\<close> and of \<open>update_replacement_state\<close>, a prefetcher that implements all three
  variants of \<open>prefetcher_cache_operate\<close> and a branch predictor with both variants of
  \<open>predict_branch\<close> are detected as implementing one variant (2, 2, 3 and 1), as a module
  with that variant alone is. Detection has no outcome that stands for a rejection.
\<close>

theorem duplicate_hook_variants_detected:
  "has_find_victim \<lparr>find_victim_v1 = True, find_victim_v2 = True,
                     update_state_v1 = True, update_state_v2 = True\<rparr> = 2
   \<and> has_find_victim \<lparr>find_victim_v1 = False, find_victim_v2 = True,
                       update_state_v1 = False, update_state_v2 = True\<rparr> = 2
   \<and> has_update_state \<lparr>find_victim_v1 = True, find_victim_v2 = True,
                        update_state_v1 = True, update_state_v2 = True\<rparr> = 2
   \<and> has_cache_operate \<lparr>cache_operate_v1 = True, cache_operate_v2 = True,
                         cache_operate_v3 = True\<rparr> = 3
   \<and> has_predict_branch \<lparr>predict_branch_v1 = True, predict_branch_v2 = True\<rparr> = 1"
  by (simp add: has_find_victim_def has_update_state_def has_cache_operate_def
      has_predict_branch_def)

text \<open>
  C7, amended. Detection of a hook returns 0 exactly when the module implements no variant
  of it, and otherwise the number of one variant the module implements, also when it
  implements several: the newest for \<open>prefetcher_cache_operate\<close>, \<open>find_victim\<close> and
  \<open>update_replacement_state\<close>, the first for \<open>predict_branch\<close> and \<open>btb_prediction\<close>.
\<close>

theorem hook_detection_selects_one_variant:
  "(has_cache_operate P = 0 \<longleftrightarrow>
      \<not> cache_operate_v1 P \<and> \<not> cache_operate_v2 P \<and> \<not> cache_operate_v3 P)
   \<and> (has_cache_operate P = 3 \<longleftrightarrow> cache_operate_v3 P)
   \<and> (has_cache_operate P = 2 \<longleftrightarrow> cache_operate_v2 P \<and> \<not> cache_operate_v3 P)
   \<and> (has_cache_operate P = 1 \<longleftrightarrow>
        cache_operate_v1 P \<and> \<not> cache_operate_v2 P \<and> \<not> cache_operate_v3 P)
   \<and> (has_find_victim R = 0 \<longleftrightarrow> \<not> find_victim_v1 R \<and> \<not> find_victim_v2 R)
   \<and> (has_find_victim R = 2 \<longleftrightarrow> find_victim_v2 R)
   \<and> (has_find_victim R = 1 \<longleftrightarrow> find_victim_v1 R \<and> \<not> find_victim_v2 R)
   \<and> (has_update_state R = 0 \<longleftrightarrow> \<not> update_state_v1 R \<and> \<not> update_state_v2 R)
   \<and> (has_update_state R = 2 \<longleftrightarrow> update_state_v2 R)
   \<and> (has_update_state R = 1 \<longleftrightarrow> update_state_v1 R \<and> \<not> update_state_v2 R)
   \<and> (has_predict_branch B = 0 \<longleftrightarrow> \<not> predict_branch_v1 B \<and> \<not> predict_branch_v2 B)
   \<and> (has_predict_branch B = 1 \<longleftrightarrow> predict_branch_v1 B)
   \<and> (has_predict_branch B = 2 \<longleftrightarrow> predict_branch_v2 B \<and> \<not> predict_branch_v1 B)
   \<and> (has_btb_prediction T = 0 \<longleftrightarrow> \<not> btb_prediction_v1 T \<and> \<not> btb_prediction_v2 T)
   \<and> (has_btb_prediction T = 1 \<longleftrightarrow> btb_prediction_v1 T)
   \<and> (has_btb_prediction T = 2 \<longleftrightarrow> btb_prediction_v2 T \<and> \<not> btb_prediction_v1 T)"
  by (simp add: has_cache_operate_def has_find_victim_def has_update_state_def
      has_predict_branch_def has_btb_prediction_def)

theorem hook_detection_selects_one_variant_witness:
  "has_cache_operate \<lparr>cache_operate_v1 = True, cache_operate_v2 = False,
                       cache_operate_v3 = True\<rparr> = 3
   \<and> has_find_victim \<lparr>find_victim_v1 = True, find_victim_v2 = True,
                       update_state_v1 = False, update_state_v2 = False\<rparr> = 2
   \<and> has_update_state \<lparr>find_victim_v1 = True, find_victim_v2 = True,
                        update_state_v1 = False, update_state_v2 = False\<rparr> = 0
   \<and> has_predict_branch \<lparr>predict_branch_v1 = True, predict_branch_v2 = True\<rparr> = 1
   \<and> has_btb_prediction \<lparr>btb_prediction_v1 = False, btb_prediction_v2 = True\<rparr> = 2"
  using hook_detection_selects_one_variant
    [of "\<lparr>cache_operate_v1 = True, cache_operate_v2 = False, cache_operate_v3 = True\<rparr>"
        "\<lparr>find_victim_v1 = True, find_victim_v2 = True,
          update_state_v1 = False, update_state_v2 = False\<rparr>"
        "\<lparr>predict_branch_v1 = True, predict_branch_v2 = True\<rparr>"
        "\<lparr>btb_prediction_v1 = False, btb_prediction_v2 = True\<rparr>"]
  by simp

subsection \<open>The DRAM scheduler\<close>

lemma oldest_none: "\<forall>r. Some r \<in> set es \<longrightarrow> \<not> P r \<Longrightarrow> oldest P es i best = best"
  by (induction P es i best rule: oldest.induct) auto

lemma oldest_SomeD:
  "oldest P es k best = Some (i, r) \<Longrightarrow>
     best = Some (i, r) \<or> (\<exists>j < length es. i = k + j \<and> es ! j = Some r \<and> P r)"
proof (induction P es k best rule: oldest.induct)
  case (1 P i best)
  then show ?case by simp
next
  case (2 P es k best)
  then show ?case by fastforce
next
  case (3 P r' es k best)
  from "3.prems" have "oldest P es (Suc k)
      (if P r' \<and> (case best of None \<Rightarrow> True
                       | Some (j, b) \<Rightarrow> req_event_cycle r' < req_event_cycle b)
       then Some (k, r') else best) = Some (i, r)"
    by simp
  from "3.IH" [OF this] show ?case
    by (fastforce split: if_splits)
qed

text \<open>Only a request of the queue that is not yet scheduled is ever picked.\<close>

lemma pick_SomeD:
  assumes "pick rhf c = Some (i, r)"
  shows "i < length (RQ c) \<and> RQ c ! i = Some r \<and> \<not> req_scheduled r"
proof -
  have "oldest (\<lambda>r. arrived c r \<and> bank_idle c r \<and> row_hit c r) (RQ c) 0 None = Some (i, r)
      \<or> oldest (\<lambda>r. arrived c r \<and> bank_idle c r) (RQ c) 0 None = Some (i, r)"
    using assms by (auto simp: pick_def Let_def split: if_splits)
  then show ?thesis
    by (auto dest!: oldest_SomeD simp: arrived_def)
qed

lemma pick_quiet:
  assumes "quiet_until c T" and "current_cycle c < T"
  shows "pick rhf c = None"
proof -
  have 1: "\<forall>r. Some r \<in> set (RQ c) \<longrightarrow> \<not> (arrived c r \<and> bank_idle c r)"
    using assms unfolding quiet_until_def list_all_iff waits_def arrived_def bank_idle_def
    by auto
  then have 2: "\<forall>r. Some r \<in> set (RQ c) \<longrightarrow> \<not> (arrived c r \<and> bank_idle c r \<and> row_hit c r)"
    by auto
  show ?thesis
    unfolding pick_def Let_def using oldest_none [OF 1] oldest_none [OF 2] by simp
qed

lemma quiet_until_cycle: "quiet_until (c\<lparr>current_cycle := t\<rparr>) T = quiet_until c T"
  by (simp add: quiet_until_def waits_def)

lemma first_mismatch_same: "first_mismatch xs xs i = None"
  by (induction xs arbitrary: i) auto

lemma first_mismatch_update:
  "i < length xs \<Longrightarrow> \<not> xs ! i \<Longrightarrow> first_mismatch (xs[i := True]) xs k = Some (k + i)"
proof (induction xs arbitrary: i k)
  case Nil
  then show ?case by simp
next
  case (Cons x xs)
  then show ?case by (cases i) auto
qed

text \<open>A cycle in which nothing is scheduled only advances the clock.\<close>

lemma loop_idle:
  assumes "pick rhf c = None" and "lst = map is_scheduled (RQ c)" and "length ord < N"
  shows "dram_test_loop (Suc fuel) rhf tm N c lst ord
       = dram_test_loop fuel rhf tm N (c\<lparr>current_cycle := current_cycle c + 1\<rparr>) lst ord"
  using assms
  by (subst dram_test_loop.simps) (simp add: dram_operate_def first_mismatch_same)

lemma loop_skip:
  assumes "quiet_until c (current_cycle c + n)" and "lst = map is_scheduled (RQ c)"
    and "length ord < N"
  shows "dram_test_loop (n + fuel) rhf tm N c lst ord
       = dram_test_loop fuel rhf tm N (c\<lparr>current_cycle := current_cycle c + n\<rparr>) lst ord"
  using assms
proof (induction n arbitrary: c)
  case 0
  then show ?case by simp
next
  case (Suc n)
  let ?c' = "c\<lparr>current_cycle := current_cycle c + 1\<rparr>"
  have lt: "current_cycle c < current_cycle c + Suc n"
    by simp
  have q: "quiet_until ?c' (current_cycle ?c' + n)"
    using Suc.prems(1) by (simp add: quiet_until_cycle)
  have "dram_test_loop (Suc n + fuel) rhf tm N c lst ord
      = dram_test_loop (n + fuel) rhf tm N ?c' lst ord"
    using loop_idle [OF pick_quiet [OF Suc.prems(1) lt] Suc.prems(2,3)] by simp
  also have "\<dots> = dram_test_loop fuel rhf tm N
                     (?c'\<lparr>current_cycle := current_cycle ?c' + n\<rparr>) lst ord"
    using Suc.IH [OF q] Suc.prems(2,3) by simp
  finally show ?case
    by simp
qed

text \<open>A cycle in which request \<open>i\<close> is scheduled records \<open>i\<close>.\<close>

lemma loop_step:
  assumes p: "pick rhf c = Some (i, r)" and i: "i < length (RQ c)"
    and u: "\<not> is_scheduled (RQ c ! i)"
    and l: "lst = map is_scheduled (RQ c)" and n: "length ord < N"
  shows "dram_test_loop (Suc fuel) rhf tm N c lst ord
       = dram_test_loop fuel rhf tm N (dram_operate rhf tm c) (lst[i := True]) (ord @ [i])"
proof -
  have rq: "RQ (dram_operate rhf tm c) = (RQ c)[i := Some (r\<lparr>req_scheduled := True,
      req_event_cycle := current_cycle c + (if row_hit c r then 0 else t_RP tm + t_RCD tm)
                         + t_CAS tm\<rparr>)]"
    using p by (simp add: dram_operate_def Let_def)
  have m: "map is_scheduled (RQ (dram_operate rhf tm c)) = lst[i := True]"
    unfolding rq l by (simp add: map_update is_scheduled_def)
  have fm: "first_mismatch (lst[i := True]) lst 0 = Some i"
    using first_mismatch_update [of i lst 0] i u l by simp
  show ?thesis
    using n by (subst dram_test_loop.simps) (simp add: Let_def m fm)
qed

text \<open>
  One event of the scenario: nothing can be scheduled before cycle \<open>T\<close>, and at cycle \<open>T\<close>
  request \<open>i\<close> is picked.
\<close>

lemma dram_event:
  assumes le: "current_cycle c \<le> T" and quiet: "quiet_until c T"
    and pick: "pick rhf (c\<lparr>current_cycle := T\<rparr>) = Some (i, r)"
    and len: "length ord < 21"
    and fuel: "fuel = (T - current_cycle c) + Suc fuel'"
    and c': "c' = dram_operate rhf tm (c\<lparr>current_cycle := T\<rparr>)"
    and ord': "ord' = ord @ [i]"
  shows "dram_run rhf tm fuel c ord = dram_run rhf tm fuel' c' ord'"
proof -
  let ?c = "c\<lparr>current_cycle := T\<rparr>"
  have q: "quiet_until c (current_cycle c + (T - current_cycle c))"
    using le quiet by simp
  have e: "c\<lparr>current_cycle := current_cycle c + (T - current_cycle c)\<rparr> = ?c"
    using le by simp
  have skip: "dram_run rhf tm fuel c ord = dram_run rhf tm (Suc fuel') ?c ord"
    unfolding dram_run_def fuel
    using loop_skip [OF q refl len, of "Suc fuel'" rhf tm] unfolding e by simp
  have d: "i < length (RQ ?c)" "\<not> is_scheduled (RQ ?c ! i)"
    using pick_SomeD [OF pick] by (simp_all add: is_scheduled_def)
  have rq: "RQ c' = (RQ ?c)[i := Some (r\<lparr>req_scheduled := True,
      req_event_cycle := T + (if row_hit ?c r then 0 else t_RP tm + t_RCD tm) + t_CAS tm\<rparr>)]"
    unfolding c' using pick by (simp add: dram_operate_def Let_def)
  have m: "map is_scheduled (RQ c') = (map is_scheduled (RQ ?c))[i := True]"
    unfolding rq by (simp add: map_update is_scheduled_def)
  have "dram_run rhf tm (Suc fuel') ?c ord = dram_run rhf tm fuel' c' ord'"
    unfolding dram_run_def c' [symmetric] ord' m
    using loop_step [OF pick d refl len, of fuel' tm] unfolding c' [symmetric] by simp
  with skip show ?thesis
    by simp
qed

lemmas dram_event_defs =
  quiet_until_def waits_def pick_def dram_operate_def Let_def arrived_def bank_idle_def
  row_hit_def mk_def mk_req_def mk_bank_def packet_stream_def bak_access_def row_access_def
  arriv_time_def

text \<open>More fuel does not change a result, and a result extends the order recorded so far.\<close>

lemma dram_test_loop_more_fuel:
  "dram_test_loop fuel rhf tm N c lst ord = Some res
   \<Longrightarrow> dram_test_loop (fuel + k) rhf tm N c lst ord = Some res"
proof (induction fuel arbitrary: c lst ord)
  case 0
  then show ?case
    by (subst dram_test_loop.simps, subst (asm) dram_test_loop.simps) (simp split: if_splits)
next
  case (Suc fuel)
  show ?case
  proof (cases "N \<le> length ord")
    case True
    with Suc.prems show ?thesis
      by (subst dram_test_loop.simps, subst (asm) dram_test_loop.simps) simp
  next
    case False
    with Suc.prems have "dram_test_loop fuel rhf tm N (dram_operate rhf tm c)
        (map is_scheduled (RQ (dram_operate rhf tm c)))
        (case first_mismatch (map is_scheduled (RQ (dram_operate rhf tm c))) lst 0 of
           None \<Rightarrow> ord | Some i \<Rightarrow> ord @ [i]) = Some res"
      by (subst (asm) dram_test_loop.simps) (simp add: Let_def)
    from Suc.IH [OF this] False show ?thesis
      by (subst dram_test_loop.simps) (simp add: Let_def)
  qed
qed

lemma dram_test_loop_extends:
  "dram_test_loop fuel rhf tm N c lst ord = Some res \<Longrightarrow> \<exists>rest. res = ord @ rest"
proof (induction fuel arbitrary: c lst ord)
  case 0
  then show ?case
    by (subst (asm) dram_test_loop.simps) (simp split: if_splits)
next
  case (Suc fuel)
  show ?case
  proof (cases "N \<le> length ord")
    case True
    with Suc.prems show ?thesis
      by (subst (asm) dram_test_loop.simps) simp
  next
    case False
    with Suc.prems have "dram_test_loop fuel rhf tm N (dram_operate rhf tm c)
        (map is_scheduled (RQ (dram_operate rhf tm c)))
        (case first_mismatch (map is_scheduled (RQ (dram_operate rhf tm c))) lst 0 of
           None \<Rightarrow> ord | Some i \<Rightarrow> ord @ [i]) = Some res"
      by (subst (asm) dram_test_loop.simps) (simp add: Let_def)
    from Suc.IH [OF this] show ?thesis
      by (auto split: option.splits)
  qed
qed

text \<open>
  The run of the scenario without the preference for open rows, event by event. The timing
  parameters are \<open>p = t_RP\<close>, \<open>q = t_RCD\<close> and \<open>h = t_CAS\<close>; a row miss occupies a bank for
  \<open>p + q + h\<close> cycles and a row hit for \<open>h\<close> cycles.
\<close>

lemma schedule_without_row_preference:
  fixes p q h :: nat
  assumes "17 \<le> h" and "3 \<le> p + q"
  shows "dram_run False \<lparr>t_RP = p, t_RCD = q, t_CAS = h\<rparr>
           (2 * (p + q) + 2 * h + 19)
           (mk 0
             [None, None, None, None, None, None, None, None, None, None, None, None, None,
              None, None, None, None, None, None, None, None]
             [(None, 0, 0), (None, 0, 0), (None, 0, 0), (None, 0, 0), (None, 0, 0),
              (None, 0, 0), (None, 0, 0), (None, 0, 0)])
           []
       = dram_run False \<lparr>t_RP = p, t_RCD = q, t_CAS = h\<rparr> 0
           (mk (2 * (p + q) + 2 * h + 19)
             [Some (p + q + 2 * h + 2), Some (2 * (p + q) + 3 * h + 2), Some (p + q + h + 2),
              Some (p + q + h), Some (2 * (p + q) + 2 * h), Some (3 * (p + q) + 3 * h),
              Some (p + q + h + 6), Some (2 * (p + q) + 2 * h + 6),
              Some (3 * (p + q) + 3 * h + 6), Some (p + q + h + 9),
              Some (2 * (p + q) + 2 * h + 9), Some (3 * (p + q) + 3 * h + 9),
              Some (p + q + h + 12), Some (2 * (p + q) + 2 * h + 12),
              Some (3 * (p + q) + 3 * h + 12), Some (p + q + h + 15),
              Some (2 * (p + q) + 2 * h + 15), Some (3 * (p + q) + 3 * h + 15),
              Some (2 * (p + q) + 3 * h + 18), Some (p + q + h + 18),
              Some (2 * (p + q) + 2 * h + 18)]
             [(Some 1, 2 * (p + q) + 2 * h + 2, 2 * (p + q) + 3 * h + 2),
              (Some 1, 3 * (p + q) + 2 * h, 3 * (p + q) + 3 * h),
              (Some 0, 3 * (p + q) + 2 * h + 6, 3 * (p + q) + 3 * h + 6),
              (Some 1, 3 * (p + q) + 2 * h + 9, 3 * (p + q) + 3 * h + 9),
              (Some 0, 3 * (p + q) + 2 * h + 12, 3 * (p + q) + 3 * h + 12),
              (Some 1, 3 * (p + q) + 2 * h + 15, 3 * (p + q) + 3 * h + 15),
              (Some 0, 2 * (p + q) + 2 * h + 18, 2 * (p + q) + 3 * h + 18), (None, 0, 0)])
           [3, 2, 6, 9, 12, 15, 19, 4, 0, 7, 10, 13, 16, 20, 1, 5, 8, 11, 14, 17, 18]"
proof -
  let ?tm = "\<lparr>t_RP = p, t_RCD = q, t_CAS = h\<rparr>"
  let ?s0 = "mk 0
             [None, None, None, None, None, None, None, None, None, None, None, None, None,
              None, None, None, None, None, None, None, None]
             [(None, 0, 0), (None, 0, 0), (None, 0, 0), (None, 0, 0), (None, 0, 0),
              (None, 0, 0), (None, 0, 0), (None, 0, 0)]"
  let ?s1 = "mk 1
             [None, None, None, Some (p + q + h), None, None, None, None, None, None, None,
              None, None, None, None, None, None, None, None, None, None]
             [(None, 0, 0), (Some 1, p + q, p + q + h), (None, 0, 0), (None, 0, 0),
              (None, 0, 0), (None, 0, 0), (None, 0, 0), (None, 0, 0)]"
  let ?s2 = "mk 3
             [None, None, Some (p + q + h + 2), Some (p + q + h), None, None, None, None, None,
              None, None, None, None, None, None, None, None, None, None, None, None]
             [(Some 0, p + q + 2, p + q + h + 2), (Some 1, p + q, p + q + h), (None, 0, 0),
              (None, 0, 0), (None, 0, 0), (None, 0, 0), (None, 0, 0), (None, 0, 0)]"
  let ?s3 = "mk 7
             [None, None, Some (p + q + h + 2), Some (p + q + h), None, None,
              Some (p + q + h + 6), None, None, None, None, None, None, None, None, None, None,
              None, None, None, None]
             [(Some 0, p + q + 2, p + q + h + 2), (Some 1, p + q, p + q + h),
              (Some 0, p + q + 6, p + q + h + 6), (None, 0, 0), (None, 0, 0), (None, 0, 0),
              (None, 0, 0), (None, 0, 0)]"
  let ?s4 = "mk 10
             [None, None, Some (p + q + h + 2), Some (p + q + h), None, None,
              Some (p + q + h + 6), None, None, Some (p + q + h + 9), None, None, None, None,
              None, None, None, None, None, None, None]
             [(Some 0, p + q + 2, p + q + h + 2), (Some 1, p + q, p + q + h),
              (Some 0, p + q + 6, p + q + h + 6), (Some 1, p + q + 9, p + q + h + 9),
              (None, 0, 0), (None, 0, 0), (None, 0, 0), (None, 0, 0)]"
  let ?s5 = "mk 13
             [None, None, Some (p + q + h + 2), Some (p + q + h), None, None,
              Some (p + q + h + 6), None, None, Some (p + q + h + 9), None, None,
              Some (p + q + h + 12), None, None, None, None, None, None, None, None]
             [(Some 0, p + q + 2, p + q + h + 2), (Some 1, p + q, p + q + h),
              (Some 0, p + q + 6, p + q + h + 6), (Some 1, p + q + 9, p + q + h + 9),
              (Some 0, p + q + 12, p + q + h + 12), (None, 0, 0), (None, 0, 0), (None, 0, 0)]"
  let ?s6 = "mk 16
             [None, None, Some (p + q + h + 2), Some (p + q + h), None, None,
              Some (p + q + h + 6), None, None, Some (p + q + h + 9), None, None,
              Some (p + q + h + 12), None, None, Some (p + q + h + 15), None, None, None, None,
              None]
             [(Some 0, p + q + 2, p + q + h + 2), (Some 1, p + q, p + q + h),
              (Some 0, p + q + 6, p + q + h + 6), (Some 1, p + q + 9, p + q + h + 9),
              (Some 0, p + q + 12, p + q + h + 12), (Some 1, p + q + 15, p + q + h + 15),
              (None, 0, 0), (None, 0, 0)]"
  let ?s7 = "mk 19
             [None, None, Some (p + q + h + 2), Some (p + q + h), None, None,
              Some (p + q + h + 6), None, None, Some (p + q + h + 9), None, None,
              Some (p + q + h + 12), None, None, Some (p + q + h + 15), None, None, None,
              Some (p + q + h + 18), None]
             [(Some 0, p + q + 2, p + q + h + 2), (Some 1, p + q, p + q + h),
              (Some 0, p + q + 6, p + q + h + 6), (Some 1, p + q + 9, p + q + h + 9),
              (Some 0, p + q + 12, p + q + h + 12), (Some 1, p + q + 15, p + q + h + 15),
              (Some 1, p + q + 18, p + q + h + 18), (None, 0, 0)]"
  let ?s8 = "mk (p + q + h + 1)
             [None, None, Some (p + q + h + 2), Some (p + q + h), Some (2 * (p + q) + 2 * h),
              None, Some (p + q + h + 6), None, None, Some (p + q + h + 9), None, None,
              Some (p + q + h + 12), None, None, Some (p + q + h + 15), None, None, None,
              Some (p + q + h + 18), None]
             [(Some 0, p + q + 2, p + q + h + 2),
              (Some 0, 2 * (p + q) + h, 2 * (p + q) + 2 * h),
              (Some 0, p + q + 6, p + q + h + 6), (Some 1, p + q + 9, p + q + h + 9),
              (Some 0, p + q + 12, p + q + h + 12), (Some 1, p + q + 15, p + q + h + 15),
              (Some 1, p + q + 18, p + q + h + 18), (None, 0, 0)]"
  let ?s9 = "mk (p + q + h + 3)
             [Some (p + q + 2 * h + 2), None, Some (p + q + h + 2), Some (p + q + h),
              Some (2 * (p + q) + 2 * h), None, Some (p + q + h + 6), None, None,
              Some (p + q + h + 9), None, None, Some (p + q + h + 12), None, None,
              Some (p + q + h + 15), None, None, None, Some (p + q + h + 18), None]
             [(Some 0, p + q + h + 2, p + q + 2 * h + 2),
              (Some 0, 2 * (p + q) + h, 2 * (p + q) + 2 * h),
              (Some 0, p + q + 6, p + q + h + 6), (Some 1, p + q + 9, p + q + h + 9),
              (Some 0, p + q + 12, p + q + h + 12), (Some 1, p + q + 15, p + q + h + 15),
              (Some 1, p + q + 18, p + q + h + 18), (None, 0, 0)]"
  let ?s10 = "mk (p + q + h + 7)
             [Some (p + q + 2 * h + 2), None, Some (p + q + h + 2), Some (p + q + h),
              Some (2 * (p + q) + 2 * h), None, Some (p + q + h + 6),
              Some (2 * (p + q) + 2 * h + 6), None, Some (p + q + h + 9), None, None,
              Some (p + q + h + 12), None, None, Some (p + q + h + 15), None, None, None,
              Some (p + q + h + 18), None]
             [(Some 0, p + q + h + 2, p + q + 2 * h + 2),
              (Some 0, 2 * (p + q) + h, 2 * (p + q) + 2 * h),
              (Some 1, 2 * (p + q) + h + 6, 2 * (p + q) + 2 * h + 6),
              (Some 1, p + q + 9, p + q + h + 9), (Some 0, p + q + 12, p + q + h + 12),
              (Some 1, p + q + 15, p + q + h + 15), (Some 1, p + q + 18, p + q + h + 18),
              (None, 0, 0)]"
  let ?s11 = "mk (p + q + h + 10)
             [Some (p + q + 2 * h + 2), None, Some (p + q + h + 2), Some (p + q + h),
              Some (2 * (p + q) + 2 * h), None, Some (p + q + h + 6),
              Some (2 * (p + q) + 2 * h + 6), None, Some (p + q + h + 9),
              Some (2 * (p + q) + 2 * h + 9), None, Some (p + q + h + 12), None, None,
              Some (p + q + h + 15), None, None, None, Some (p + q + h + 18), None]
             [(Some 0, p + q + h + 2, p + q + 2 * h + 2),
              (Some 0, 2 * (p + q) + h, 2 * (p + q) + 2 * h),
              (Some 1, 2 * (p + q) + h + 6, 2 * (p + q) + 2 * h + 6),
              (Some 0, 2 * (p + q) + h + 9, 2 * (p + q) + 2 * h + 9),
              (Some 0, p + q + 12, p + q + h + 12), (Some 1, p + q + 15, p + q + h + 15),
              (Some 1, p + q + 18, p + q + h + 18), (None, 0, 0)]"
  let ?s12 = "mk (p + q + h + 13)
             [Some (p + q + 2 * h + 2), None, Some (p + q + h + 2), Some (p + q + h),
              Some (2 * (p + q) + 2 * h), None, Some (p + q + h + 6),
              Some (2 * (p + q) + 2 * h + 6), None, Some (p + q + h + 9),
              Some (2 * (p + q) + 2 * h + 9), None, Some (p + q + h + 12),
              Some (2 * (p + q) + 2 * h + 12), None, Some (p + q + h + 15), None, None, None,
              Some (p + q + h + 18), None]
             [(Some 0, p + q + h + 2, p + q + 2 * h + 2),
              (Some 0, 2 * (p + q) + h, 2 * (p + q) + 2 * h),
              (Some 1, 2 * (p + q) + h + 6, 2 * (p + q) + 2 * h + 6),
              (Some 0, 2 * (p + q) + h + 9, 2 * (p + q) + 2 * h + 9),
              (Some 1, 2 * (p + q) + h + 12, 2 * (p + q) + 2 * h + 12),
              (Some 1, p + q + 15, p + q + h + 15), (Some 1, p + q + 18, p + q + h + 18),
              (None, 0, 0)]"
  let ?s13 = "mk (p + q + h + 16)
             [Some (p + q + 2 * h + 2), None, Some (p + q + h + 2), Some (p + q + h),
              Some (2 * (p + q) + 2 * h), None, Some (p + q + h + 6),
              Some (2 * (p + q) + 2 * h + 6), None, Some (p + q + h + 9),
              Some (2 * (p + q) + 2 * h + 9), None, Some (p + q + h + 12),
              Some (2 * (p + q) + 2 * h + 12), None, Some (p + q + h + 15),
              Some (2 * (p + q) + 2 * h + 15), None, None, Some (p + q + h + 18), None]
             [(Some 0, p + q + h + 2, p + q + 2 * h + 2),
              (Some 0, 2 * (p + q) + h, 2 * (p + q) + 2 * h),
              (Some 1, 2 * (p + q) + h + 6, 2 * (p + q) + 2 * h + 6),
              (Some 0, 2 * (p + q) + h + 9, 2 * (p + q) + 2 * h + 9),
              (Some 1, 2 * (p + q) + h + 12, 2 * (p + q) + 2 * h + 12),
              (Some 0, 2 * (p + q) + h + 15, 2 * (p + q) + 2 * h + 15),
              (Some 1, p + q + 18, p + q + h + 18), (None, 0, 0)]"
  let ?s14 = "mk (p + q + h + 19)
             [Some (p + q + 2 * h + 2), None, Some (p + q + h + 2), Some (p + q + h),
              Some (2 * (p + q) + 2 * h), None, Some (p + q + h + 6),
              Some (2 * (p + q) + 2 * h + 6), None, Some (p + q + h + 9),
              Some (2 * (p + q) + 2 * h + 9), None, Some (p + q + h + 12),
              Some (2 * (p + q) + 2 * h + 12), None, Some (p + q + h + 15),
              Some (2 * (p + q) + 2 * h + 15), None, None, Some (p + q + h + 18),
              Some (2 * (p + q) + 2 * h + 18)]
             [(Some 0, p + q + h + 2, p + q + 2 * h + 2),
              (Some 0, 2 * (p + q) + h, 2 * (p + q) + 2 * h),
              (Some 1, 2 * (p + q) + h + 6, 2 * (p + q) + 2 * h + 6),
              (Some 0, 2 * (p + q) + h + 9, 2 * (p + q) + 2 * h + 9),
              (Some 1, 2 * (p + q) + h + 12, 2 * (p + q) + 2 * h + 12),
              (Some 0, 2 * (p + q) + h + 15, 2 * (p + q) + 2 * h + 15),
              (Some 0, 2 * (p + q) + h + 18, 2 * (p + q) + 2 * h + 18), (None, 0, 0)]"
  let ?s15 = "mk (p + q + 2 * h + 3)
             [Some (p + q + 2 * h + 2), Some (2 * (p + q) + 3 * h + 2), Some (p + q + h + 2),
              Some (p + q + h), Some (2 * (p + q) + 2 * h), None, Some (p + q + h + 6),
              Some (2 * (p + q) + 2 * h + 6), None, Some (p + q + h + 9),
              Some (2 * (p + q) + 2 * h + 9), None, Some (p + q + h + 12),
              Some (2 * (p + q) + 2 * h + 12), None, Some (p + q + h + 15),
              Some (2 * (p + q) + 2 * h + 15), None, None, Some (p + q + h + 18),
              Some (2 * (p + q) + 2 * h + 18)]
             [(Some 1, 2 * (p + q) + 2 * h + 2, 2 * (p + q) + 3 * h + 2),
              (Some 0, 2 * (p + q) + h, 2 * (p + q) + 2 * h),
              (Some 1, 2 * (p + q) + h + 6, 2 * (p + q) + 2 * h + 6),
              (Some 0, 2 * (p + q) + h + 9, 2 * (p + q) + 2 * h + 9),
              (Some 1, 2 * (p + q) + h + 12, 2 * (p + q) + 2 * h + 12),
              (Some 0, 2 * (p + q) + h + 15, 2 * (p + q) + 2 * h + 15),
              (Some 0, 2 * (p + q) + h + 18, 2 * (p + q) + 2 * h + 18), (None, 0, 0)]"
  let ?s16 = "mk (2 * (p + q) + 2 * h + 1)
             [Some (p + q + 2 * h + 2), Some (2 * (p + q) + 3 * h + 2), Some (p + q + h + 2),
              Some (p + q + h), Some (2 * (p + q) + 2 * h), Some (3 * (p + q) + 3 * h),
              Some (p + q + h + 6), Some (2 * (p + q) + 2 * h + 6), None, Some (p + q + h + 9),
              Some (2 * (p + q) + 2 * h + 9), None, Some (p + q + h + 12),
              Some (2 * (p + q) + 2 * h + 12), None, Some (p + q + h + 15),
              Some (2 * (p + q) + 2 * h + 15), None, None, Some (p + q + h + 18),
              Some (2 * (p + q) + 2 * h + 18)]
             [(Some 1, 2 * (p + q) + 2 * h + 2, 2 * (p + q) + 3 * h + 2),
              (Some 1, 3 * (p + q) + 2 * h, 3 * (p + q) + 3 * h),
              (Some 1, 2 * (p + q) + h + 6, 2 * (p + q) + 2 * h + 6),
              (Some 0, 2 * (p + q) + h + 9, 2 * (p + q) + 2 * h + 9),
              (Some 1, 2 * (p + q) + h + 12, 2 * (p + q) + 2 * h + 12),
              (Some 0, 2 * (p + q) + h + 15, 2 * (p + q) + 2 * h + 15),
              (Some 0, 2 * (p + q) + h + 18, 2 * (p + q) + 2 * h + 18), (None, 0, 0)]"
  let ?s17 = "mk (2 * (p + q) + 2 * h + 7)
             [Some (p + q + 2 * h + 2), Some (2 * (p + q) + 3 * h + 2), Some (p + q + h + 2),
              Some (p + q + h), Some (2 * (p + q) + 2 * h), Some (3 * (p + q) + 3 * h),
              Some (p + q + h + 6), Some (2 * (p + q) + 2 * h + 6),
              Some (3 * (p + q) + 3 * h + 6), Some (p + q + h + 9),
              Some (2 * (p + q) + 2 * h + 9), None, Some (p + q + h + 12),
              Some (2 * (p + q) + 2 * h + 12), None, Some (p + q + h + 15),
              Some (2 * (p + q) + 2 * h + 15), None, None, Some (p + q + h + 18),
              Some (2 * (p + q) + 2 * h + 18)]
             [(Some 1, 2 * (p + q) + 2 * h + 2, 2 * (p + q) + 3 * h + 2),
              (Some 1, 3 * (p + q) + 2 * h, 3 * (p + q) + 3 * h),
              (Some 0, 3 * (p + q) + 2 * h + 6, 3 * (p + q) + 3 * h + 6),
              (Some 0, 2 * (p + q) + h + 9, 2 * (p + q) + 2 * h + 9),
              (Some 1, 2 * (p + q) + h + 12, 2 * (p + q) + 2 * h + 12),
              (Some 0, 2 * (p + q) + h + 15, 2 * (p + q) + 2 * h + 15),
              (Some 0, 2 * (p + q) + h + 18, 2 * (p + q) + 2 * h + 18), (None, 0, 0)]"
  let ?s18 = "mk (2 * (p + q) + 2 * h + 10)
             [Some (p + q + 2 * h + 2), Some (2 * (p + q) + 3 * h + 2), Some (p + q + h + 2),
              Some (p + q + h), Some (2 * (p + q) + 2 * h), Some (3 * (p + q) + 3 * h),
              Some (p + q + h + 6), Some (2 * (p + q) + 2 * h + 6),
              Some (3 * (p + q) + 3 * h + 6), Some (p + q + h + 9),
              Some (2 * (p + q) + 2 * h + 9), Some (3 * (p + q) + 3 * h + 9),
              Some (p + q + h + 12), Some (2 * (p + q) + 2 * h + 12), None,
              Some (p + q + h + 15), Some (2 * (p + q) + 2 * h + 15), None, None,
              Some (p + q + h + 18), Some (2 * (p + q) + 2 * h + 18)]
             [(Some 1, 2 * (p + q) + 2 * h + 2, 2 * (p + q) + 3 * h + 2),
              (Some 1, 3 * (p + q) + 2 * h, 3 * (p + q) + 3 * h),
              (Some 0, 3 * (p + q) + 2 * h + 6, 3 * (p + q) + 3 * h + 6),
              (Some 1, 3 * (p + q) + 2 * h + 9, 3 * (p + q) + 3 * h + 9),
              (Some 1, 2 * (p + q) + h + 12, 2 * (p + q) + 2 * h + 12),
              (Some 0, 2 * (p + q) + h + 15, 2 * (p + q) + 2 * h + 15),
              (Some 0, 2 * (p + q) + h + 18, 2 * (p + q) + 2 * h + 18), (None, 0, 0)]"
  let ?s19 = "mk (2 * (p + q) + 2 * h + 13)
             [Some (p + q + 2 * h + 2), Some (2 * (p + q) + 3 * h + 2), Some (p + q + h + 2),
              Some (p + q + h), Some (2 * (p + q) + 2 * h), Some (3 * (p + q) + 3 * h),
              Some (p + q + h + 6), Some (2 * (p + q) + 2 * h + 6),
              Some (3 * (p + q) + 3 * h + 6), Some (p + q + h + 9),
              Some (2 * (p + q) + 2 * h + 9), Some (3 * (p + q) + 3 * h + 9),
              Some (p + q + h + 12), Some (2 * (p + q) + 2 * h + 12),
              Some (3 * (p + q) + 3 * h + 12), Some (p + q + h + 15),
              Some (2 * (p + q) + 2 * h + 15), None, None, Some (p + q + h + 18),
              Some (2 * (p + q) + 2 * h + 18)]
             [(Some 1, 2 * (p + q) + 2 * h + 2, 2 * (p + q) + 3 * h + 2),
              (Some 1, 3 * (p + q) + 2 * h, 3 * (p + q) + 3 * h),
              (Some 0, 3 * (p + q) + 2 * h + 6, 3 * (p + q) + 3 * h + 6),
              (Some 1, 3 * (p + q) + 2 * h + 9, 3 * (p + q) + 3 * h + 9),
              (Some 0, 3 * (p + q) + 2 * h + 12, 3 * (p + q) + 3 * h + 12),
              (Some 0, 2 * (p + q) + h + 15, 2 * (p + q) + 2 * h + 15),
              (Some 0, 2 * (p + q) + h + 18, 2 * (p + q) + 2 * h + 18), (None, 0, 0)]"
  let ?s20 = "mk (2 * (p + q) + 2 * h + 16)
             [Some (p + q + 2 * h + 2), Some (2 * (p + q) + 3 * h + 2), Some (p + q + h + 2),
              Some (p + q + h), Some (2 * (p + q) + 2 * h), Some (3 * (p + q) + 3 * h),
              Some (p + q + h + 6), Some (2 * (p + q) + 2 * h + 6),
              Some (3 * (p + q) + 3 * h + 6), Some (p + q + h + 9),
              Some (2 * (p + q) + 2 * h + 9), Some (3 * (p + q) + 3 * h + 9),
              Some (p + q + h + 12), Some (2 * (p + q) + 2 * h + 12),
              Some (3 * (p + q) + 3 * h + 12), Some (p + q + h + 15),
              Some (2 * (p + q) + 2 * h + 15), Some (3 * (p + q) + 3 * h + 15), None,
              Some (p + q + h + 18), Some (2 * (p + q) + 2 * h + 18)]
             [(Some 1, 2 * (p + q) + 2 * h + 2, 2 * (p + q) + 3 * h + 2),
              (Some 1, 3 * (p + q) + 2 * h, 3 * (p + q) + 3 * h),
              (Some 0, 3 * (p + q) + 2 * h + 6, 3 * (p + q) + 3 * h + 6),
              (Some 1, 3 * (p + q) + 2 * h + 9, 3 * (p + q) + 3 * h + 9),
              (Some 0, 3 * (p + q) + 2 * h + 12, 3 * (p + q) + 3 * h + 12),
              (Some 1, 3 * (p + q) + 2 * h + 15, 3 * (p + q) + 3 * h + 15),
              (Some 0, 2 * (p + q) + h + 18, 2 * (p + q) + 2 * h + 18), (None, 0, 0)]"
  let ?s21 = "mk (2 * (p + q) + 2 * h + 19)
             [Some (p + q + 2 * h + 2), Some (2 * (p + q) + 3 * h + 2), Some (p + q + h + 2),
              Some (p + q + h), Some (2 * (p + q) + 2 * h), Some (3 * (p + q) + 3 * h),
              Some (p + q + h + 6), Some (2 * (p + q) + 2 * h + 6),
              Some (3 * (p + q) + 3 * h + 6), Some (p + q + h + 9),
              Some (2 * (p + q) + 2 * h + 9), Some (3 * (p + q) + 3 * h + 9),
              Some (p + q + h + 12), Some (2 * (p + q) + 2 * h + 12),
              Some (3 * (p + q) + 3 * h + 12), Some (p + q + h + 15),
              Some (2 * (p + q) + 2 * h + 15), Some (3 * (p + q) + 3 * h + 15),
              Some (2 * (p + q) + 3 * h + 18), Some (p + q + h + 18),
              Some (2 * (p + q) + 2 * h + 18)]
             [(Some 1, 2 * (p + q) + 2 * h + 2, 2 * (p + q) + 3 * h + 2),
              (Some 1, 3 * (p + q) + 2 * h, 3 * (p + q) + 3 * h),
              (Some 0, 3 * (p + q) + 2 * h + 6, 3 * (p + q) + 3 * h + 6),
              (Some 1, 3 * (p + q) + 2 * h + 9, 3 * (p + q) + 3 * h + 9),
              (Some 0, 3 * (p + q) + 2 * h + 12, 3 * (p + q) + 3 * h + 12),
              (Some 1, 3 * (p + q) + 2 * h + 15, 3 * (p + q) + 3 * h + 15),
              (Some 0, 2 * (p + q) + 2 * h + 18, 2 * (p + q) + 3 * h + 18), (None, 0, 0)]"
  have e1: "dram_run False ?tm (2 * (p + q) + 2 * h + 19) ?s0
              []
          = dram_run False ?tm (2 * (p + q) + 2 * h + 18) ?s1
              [3]"
    by (rule dram_event [where T = "0" and i = 3
          and r = "\<lparr>req_bank = 1, req_row = 1, req_event_cycle = 0,
                   req_scheduled = False\<rparr>"])
      (use assms in \<open>simp_all add: dram_event_defs\<close>)
  have e2: "dram_run False ?tm (2 * (p + q) + 2 * h + 18) ?s1
              [3]
          = dram_run False ?tm (2 * (p + q) + 2 * h + 16) ?s2
              [3, 2]"
    by (rule dram_event [where T = "2" and i = 2
          and r = "\<lparr>req_bank = 0, req_row = 0, req_event_cycle = 2,
                   req_scheduled = False\<rparr>"])
      (use assms in \<open>simp_all add: dram_event_defs\<close>)
  have e3: "dram_run False ?tm (2 * (p + q) + 2 * h + 16) ?s2
              [3, 2]
          = dram_run False ?tm (2 * (p + q) + 2 * h + 12) ?s3
              [3, 2, 6]"
    by (rule dram_event [where T = "6" and i = 6
          and r = "\<lparr>req_bank = 2, req_row = 0, req_event_cycle = 6,
                   req_scheduled = False\<rparr>"])
      (use assms in \<open>simp_all add: dram_event_defs\<close>)
  have e4: "dram_run False ?tm (2 * (p + q) + 2 * h + 12) ?s3
              [3, 2, 6]
          = dram_run False ?tm (2 * (p + q) + 2 * h + 9) ?s4
              [3, 2, 6, 9]"
    by (rule dram_event [where T = "9" and i = 9
          and r = "\<lparr>req_bank = 3, req_row = 1, req_event_cycle = 9,
                   req_scheduled = False\<rparr>"])
      (use assms in \<open>simp_all add: dram_event_defs\<close>)
  have e5: "dram_run False ?tm (2 * (p + q) + 2 * h + 9) ?s4
              [3, 2, 6, 9]
          = dram_run False ?tm (2 * (p + q) + 2 * h + 6) ?s5
              [3, 2, 6, 9, 12]"
    by (rule dram_event [where T = "12" and i = 12
          and r = "\<lparr>req_bank = 4, req_row = 0, req_event_cycle = 12,
                   req_scheduled = False\<rparr>"])
      (use assms in \<open>simp_all add: dram_event_defs\<close>)
  have e6: "dram_run False ?tm (2 * (p + q) + 2 * h + 6) ?s5
              [3, 2, 6, 9, 12]
          = dram_run False ?tm (2 * (p + q) + 2 * h + 3) ?s6
              [3, 2, 6, 9, 12, 15]"
    by (rule dram_event [where T = "15" and i = 15
          and r = "\<lparr>req_bank = 5, req_row = 1, req_event_cycle = 15,
                   req_scheduled = False\<rparr>"])
      (use assms in \<open>simp_all add: dram_event_defs\<close>)
  have e7: "dram_run False ?tm (2 * (p + q) + 2 * h + 3) ?s6
              [3, 2, 6, 9, 12, 15]
          = dram_run False ?tm (2 * (p + q) + 2 * h) ?s7
              [3, 2, 6, 9, 12, 15, 19]"
    by (rule dram_event [where T = "18" and i = 19
          and r = "\<lparr>req_bank = 6, req_row = 1, req_event_cycle = 18,
                   req_scheduled = False\<rparr>"])
      (use assms in \<open>simp_all add: dram_event_defs\<close>)
  have e8: "dram_run False ?tm (2 * (p + q) + 2 * h) ?s7
              [3, 2, 6, 9, 12, 15, 19]
          = dram_run False ?tm (p + q + h + 18) ?s8
              [3, 2, 6, 9, 12, 15, 19, 4]"
    by (rule dram_event [where T = "p + q + h" and i = 4
          and r = "\<lparr>req_bank = 1, req_row = 0, req_event_cycle = 1,
                   req_scheduled = False\<rparr>"])
      (use assms in \<open>simp_all add: dram_event_defs\<close>)
  have e9: "dram_run False ?tm (p + q + h + 18) ?s8
              [3, 2, 6, 9, 12, 15, 19, 4]
          = dram_run False ?tm (p + q + h + 16) ?s9
              [3, 2, 6, 9, 12, 15, 19, 4, 0]"
    by (rule dram_event [where T = "p + q + h + 2" and i = 0
          and r = "\<lparr>req_bank = 0, req_row = 0, req_event_cycle = 3,
                   req_scheduled = False\<rparr>"])
      (use assms in \<open>simp_all add: dram_event_defs\<close>)
  have e10: "dram_run False ?tm (p + q + h + 16) ?s9
              [3, 2, 6, 9, 12, 15, 19, 4, 0]
          = dram_run False ?tm (p + q + h + 12) ?s10
              [3, 2, 6, 9, 12, 15, 19, 4, 0, 7]"
    by (rule dram_event [where T = "p + q + h + 6" and i = 7
          and r = "\<lparr>req_bank = 2, req_row = 1, req_event_cycle = 7,
                   req_scheduled = False\<rparr>"])
      (use assms in \<open>simp_all add: dram_event_defs\<close>)
  have e11: "dram_run False ?tm (p + q + h + 12) ?s10
              [3, 2, 6, 9, 12, 15, 19, 4, 0, 7]
          = dram_run False ?tm (p + q + h + 9) ?s11
              [3, 2, 6, 9, 12, 15, 19, 4, 0, 7, 10]"
    by (rule dram_event [where T = "p + q + h + 9" and i = 10
          and r = "\<lparr>req_bank = 3, req_row = 0, req_event_cycle = 10,
                   req_scheduled = False\<rparr>"])
      (use assms in \<open>simp_all add: dram_event_defs\<close>)
  have e12: "dram_run False ?tm (p + q + h + 9) ?s11
              [3, 2, 6, 9, 12, 15, 19, 4, 0, 7, 10]
          = dram_run False ?tm (p + q + h + 6) ?s12
              [3, 2, 6, 9, 12, 15, 19, 4, 0, 7, 10, 13]"
    by (rule dram_event [where T = "p + q + h + 12" and i = 13
          and r = "\<lparr>req_bank = 4, req_row = 1, req_event_cycle = 13,
                   req_scheduled = False\<rparr>"])
      (use assms in \<open>simp_all add: dram_event_defs\<close>)
  have e13: "dram_run False ?tm (p + q + h + 6) ?s12
              [3, 2, 6, 9, 12, 15, 19, 4, 0, 7, 10, 13]
          = dram_run False ?tm (p + q + h + 3) ?s13
              [3, 2, 6, 9, 12, 15, 19, 4, 0, 7, 10, 13, 16]"
    by (rule dram_event [where T = "p + q + h + 15" and i = 16
          and r = "\<lparr>req_bank = 5, req_row = 0, req_event_cycle = 16,
                   req_scheduled = False\<rparr>"])
      (use assms in \<open>simp_all add: dram_event_defs\<close>)
  have e14: "dram_run False ?tm (p + q + h + 3) ?s13
              [3, 2, 6, 9, 12, 15, 19, 4, 0, 7, 10, 13, 16]
          = dram_run False ?tm (p + q + h) ?s14
              [3, 2, 6, 9, 12, 15, 19, 4, 0, 7, 10, 13, 16, 20]"
    by (rule dram_event [where T = "p + q + h + 18" and i = 20
          and r = "\<lparr>req_bank = 6, req_row = 0, req_event_cycle = 19,
                   req_scheduled = False\<rparr>"])
      (use assms in \<open>simp_all add: dram_event_defs\<close>)
  have e15: "dram_run False ?tm (p + q + h) ?s14
              [3, 2, 6, 9, 12, 15, 19, 4, 0, 7, 10, 13, 16, 20]
          = dram_run False ?tm (p + q + 16) ?s15
              [3, 2, 6, 9, 12, 15, 19, 4, 0, 7, 10, 13, 16, 20, 1]"
    by (rule dram_event [where T = "p + q + 2 * h + 2" and i = 1
          and r = "\<lparr>req_bank = 0, req_row = 1, req_event_cycle = 4,
                   req_scheduled = False\<rparr>"])
      (use assms in \<open>simp_all add: dram_event_defs\<close>)
  have e16: "dram_run False ?tm (p + q + 16) ?s15
              [3, 2, 6, 9, 12, 15, 19, 4, 0, 7, 10, 13, 16, 20, 1]
          = dram_run False ?tm 18 ?s16
              [3, 2, 6, 9, 12, 15, 19, 4, 0, 7, 10, 13, 16, 20, 1, 5]"
    by (rule dram_event [where T = "2 * (p + q) + 2 * h" and i = 5
          and r = "\<lparr>req_bank = 1, req_row = 1, req_event_cycle = 5,
                   req_scheduled = False\<rparr>"])
      (use assms in \<open>simp_all add: dram_event_defs\<close>)
  have e17: "dram_run False ?tm 18 ?s16
              [3, 2, 6, 9, 12, 15, 19, 4, 0, 7, 10, 13, 16, 20, 1, 5]
          = dram_run False ?tm 12 ?s17
              [3, 2, 6, 9, 12, 15, 19, 4, 0, 7, 10, 13, 16, 20, 1, 5, 8]"
    by (rule dram_event [where T = "2 * (p + q) + 2 * h + 6" and i = 8
          and r = "\<lparr>req_bank = 2, req_row = 0, req_event_cycle = 8,
                   req_scheduled = False\<rparr>"])
      (use assms in \<open>simp_all add: dram_event_defs\<close>)
  have e18: "dram_run False ?tm 12 ?s17
              [3, 2, 6, 9, 12, 15, 19, 4, 0, 7, 10, 13, 16, 20, 1, 5, 8]
          = dram_run False ?tm 9 ?s18
              [3, 2, 6, 9, 12, 15, 19, 4, 0, 7, 10, 13, 16, 20, 1, 5, 8, 11]"
    by (rule dram_event [where T = "2 * (p + q) + 2 * h + 9" and i = 11
          and r = "\<lparr>req_bank = 3, req_row = 1, req_event_cycle = 11,
                   req_scheduled = False\<rparr>"])
      (use assms in \<open>simp_all add: dram_event_defs\<close>)
  have e19: "dram_run False ?tm 9 ?s18
              [3, 2, 6, 9, 12, 15, 19, 4, 0, 7, 10, 13, 16, 20, 1, 5, 8, 11]
          = dram_run False ?tm 6 ?s19
              [3, 2, 6, 9, 12, 15, 19, 4, 0, 7, 10, 13, 16, 20, 1, 5, 8, 11, 14]"
    by (rule dram_event [where T = "2 * (p + q) + 2 * h + 12" and i = 14
          and r = "\<lparr>req_bank = 4, req_row = 0, req_event_cycle = 14,
                   req_scheduled = False\<rparr>"])
      (use assms in \<open>simp_all add: dram_event_defs\<close>)
  have e20: "dram_run False ?tm 6 ?s19
              [3, 2, 6, 9, 12, 15, 19, 4, 0, 7, 10, 13, 16, 20, 1, 5, 8, 11, 14]
          = dram_run False ?tm 3 ?s20
              [3, 2, 6, 9, 12, 15, 19, 4, 0, 7, 10, 13, 16, 20, 1, 5, 8, 11, 14, 17]"
    by (rule dram_event [where T = "2 * (p + q) + 2 * h + 15" and i = 17
          and r = "\<lparr>req_bank = 5, req_row = 1, req_event_cycle = 17,
                   req_scheduled = False\<rparr>"])
      (use assms in \<open>simp_all add: dram_event_defs\<close>)
  have e21: "dram_run False ?tm 3 ?s20
              [3, 2, 6, 9, 12, 15, 19, 4, 0, 7, 10, 13, 16, 20, 1, 5, 8, 11, 14, 17]
          = dram_run False ?tm 0 ?s21
              [3, 2, 6, 9, 12, 15, 19, 4, 0, 7, 10, 13, 16, 20, 1, 5, 8, 11, 14, 17, 18]"
    by (rule dram_event [where T = "2 * (p + q) + 2 * h + 18" and i = 18
          and r = "\<lparr>req_bank = 6, req_row = 0, req_event_cycle = 20,
                   req_scheduled = False\<rparr>"])
      (use assms in \<open>simp_all add: dram_event_defs\<close>)
  show ?thesis
    by (simp only: e1 e2 e3 e4 e5 e6 e7 e8 e9 e10 e11 e12 e13 e14 e15 e16 e17 e18
                e19 e20 e21)
qed

lemma schedule_with_row_preference:
  fixes p q h f :: nat
  assumes "17 \<le> h" and "3 \<le> p + q"
  shows "dram_run True \<lparr>t_RP = p, t_RCD = q, t_CAS = h\<rparr>
           (p + q + h + 1 + f)
           (mk 0
             [None, None, None, None, None, None, None, None, None, None, None, None, None,
              None, None, None, None, None, None, None, None]
             [(None, 0, 0), (None, 0, 0), (None, 0, 0), (None, 0, 0), (None, 0, 0),
              (None, 0, 0), (None, 0, 0), (None, 0, 0)])
           []
       = dram_run True \<lparr>t_RP = p, t_RCD = q, t_CAS = h\<rparr> f
           (mk (p + q + h + 1)
             [None, None, Some (p + q + h + 2), Some (p + q + h), None, Some (p + q + 2 * h),
              Some (p + q + h + 6), None, None, Some (p + q + h + 9), None, None,
              Some (p + q + h + 12), None, None, Some (p + q + h + 15), None, None, None,
              Some (p + q + h + 18), None]
             [(Some 0, p + q + 2, p + q + h + 2), (Some 1, p + q + h, p + q + 2 * h),
              (Some 0, p + q + 6, p + q + h + 6), (Some 1, p + q + 9, p + q + h + 9),
              (Some 0, p + q + 12, p + q + h + 12), (Some 1, p + q + 15, p + q + h + 15),
              (Some 1, p + q + 18, p + q + h + 18), (None, 0, 0)])
           [3, 2, 6, 9, 12, 15, 19, 5]"
proof -
  let ?tm = "\<lparr>t_RP = p, t_RCD = q, t_CAS = h\<rparr>"
  let ?s0 = "mk 0
             [None, None, None, None, None, None, None, None, None, None, None, None, None,
              None, None, None, None, None, None, None, None]
             [(None, 0, 0), (None, 0, 0), (None, 0, 0), (None, 0, 0), (None, 0, 0),
              (None, 0, 0), (None, 0, 0), (None, 0, 0)]"
  let ?s1 = "mk 1
             [None, None, None, Some (p + q + h), None, None, None, None, None, None, None,
              None, None, None, None, None, None, None, None, None, None]
             [(None, 0, 0), (Some 1, p + q, p + q + h), (None, 0, 0), (None, 0, 0),
              (None, 0, 0), (None, 0, 0), (None, 0, 0), (None, 0, 0)]"
  let ?s2 = "mk 3
             [None, None, Some (p + q + h + 2), Some (p + q + h), None, None, None, None, None,
              None, None, None, None, None, None, None, None, None, None, None, None]
             [(Some 0, p + q + 2, p + q + h + 2), (Some 1, p + q, p + q + h), (None, 0, 0),
              (None, 0, 0), (None, 0, 0), (None, 0, 0), (None, 0, 0), (None, 0, 0)]"
  let ?s3 = "mk 7
             [None, None, Some (p + q + h + 2), Some (p + q + h), None, None,
              Some (p + q + h + 6), None, None, None, None, None, None, None, None, None, None,
              None, None, None, None]
             [(Some 0, p + q + 2, p + q + h + 2), (Some 1, p + q, p + q + h),
              (Some 0, p + q + 6, p + q + h + 6), (None, 0, 0), (None, 0, 0), (None, 0, 0),
              (None, 0, 0), (None, 0, 0)]"
  let ?s4 = "mk 10
             [None, None, Some (p + q + h + 2), Some (p + q + h), None, None,
              Some (p + q + h + 6), None, None, Some (p + q + h + 9), None, None, None, None,
              None, None, None, None, None, None, None]
             [(Some 0, p + q + 2, p + q + h + 2), (Some 1, p + q, p + q + h),
              (Some 0, p + q + 6, p + q + h + 6), (Some 1, p + q + 9, p + q + h + 9),
              (None, 0, 0), (None, 0, 0), (None, 0, 0), (None, 0, 0)]"
  let ?s5 = "mk 13
             [None, None, Some (p + q + h + 2), Some (p + q + h), None, None,
              Some (p + q + h + 6), None, None, Some (p + q + h + 9), None, None,
              Some (p + q + h + 12), None, None, None, None, None, None, None, None]
             [(Some 0, p + q + 2, p + q + h + 2), (Some 1, p + q, p + q + h),
              (Some 0, p + q + 6, p + q + h + 6), (Some 1, p + q + 9, p + q + h + 9),
              (Some 0, p + q + 12, p + q + h + 12), (None, 0, 0), (None, 0, 0), (None, 0, 0)]"
  let ?s6 = "mk 16
             [None, None, Some (p + q + h + 2), Some (p + q + h), None, None,
              Some (p + q + h + 6), None, None, Some (p + q + h + 9), None, None,
              Some (p + q + h + 12), None, None, Some (p + q + h + 15), None, None, None, None,
              None]
             [(Some 0, p + q + 2, p + q + h + 2), (Some 1, p + q, p + q + h),
              (Some 0, p + q + 6, p + q + h + 6), (Some 1, p + q + 9, p + q + h + 9),
              (Some 0, p + q + 12, p + q + h + 12), (Some 1, p + q + 15, p + q + h + 15),
              (None, 0, 0), (None, 0, 0)]"
  let ?s7 = "mk 19
             [None, None, Some (p + q + h + 2), Some (p + q + h), None, None,
              Some (p + q + h + 6), None, None, Some (p + q + h + 9), None, None,
              Some (p + q + h + 12), None, None, Some (p + q + h + 15), None, None, None,
              Some (p + q + h + 18), None]
             [(Some 0, p + q + 2, p + q + h + 2), (Some 1, p + q, p + q + h),
              (Some 0, p + q + 6, p + q + h + 6), (Some 1, p + q + 9, p + q + h + 9),
              (Some 0, p + q + 12, p + q + h + 12), (Some 1, p + q + 15, p + q + h + 15),
              (Some 1, p + q + 18, p + q + h + 18), (None, 0, 0)]"
  let ?s8 = "mk (p + q + h + 1)
             [None, None, Some (p + q + h + 2), Some (p + q + h), None, Some (p + q + 2 * h),
              Some (p + q + h + 6), None, None, Some (p + q + h + 9), None, None,
              Some (p + q + h + 12), None, None, Some (p + q + h + 15), None, None, None,
              Some (p + q + h + 18), None]
             [(Some 0, p + q + 2, p + q + h + 2), (Some 1, p + q + h, p + q + 2 * h),
              (Some 0, p + q + 6, p + q + h + 6), (Some 1, p + q + 9, p + q + h + 9),
              (Some 0, p + q + 12, p + q + h + 12), (Some 1, p + q + 15, p + q + h + 15),
              (Some 1, p + q + 18, p + q + h + 18), (None, 0, 0)]"
  have e1: "dram_run True ?tm (p + q + h + 1 + f) ?s0
              []
          = dram_run True ?tm (p + q + h + f) ?s1
              [3]"
    by (rule dram_event [where T = "0" and i = 3
          and r = "\<lparr>req_bank = 1, req_row = 1, req_event_cycle = 0,
                   req_scheduled = False\<rparr>"])
      (use assms in \<open>simp_all add: dram_event_defs\<close>)
  have e2: "dram_run True ?tm (p + q + h + f) ?s1
              [3]
          = dram_run True ?tm (p + q + h - 2 + f) ?s2
              [3, 2]"
    by (rule dram_event [where T = "2" and i = 2
          and r = "\<lparr>req_bank = 0, req_row = 0, req_event_cycle = 2,
                   req_scheduled = False\<rparr>"])
      (use assms in \<open>simp_all add: dram_event_defs\<close>)
  have e3: "dram_run True ?tm (p + q + h - 2 + f) ?s2
              [3, 2]
          = dram_run True ?tm (p + q + h - 6 + f) ?s3
              [3, 2, 6]"
    by (rule dram_event [where T = "6" and i = 6
          and r = "\<lparr>req_bank = 2, req_row = 0, req_event_cycle = 6,
                   req_scheduled = False\<rparr>"])
      (use assms in \<open>simp_all add: dram_event_defs\<close>)
  have e4: "dram_run True ?tm (p + q + h - 6 + f) ?s3
              [3, 2, 6]
          = dram_run True ?tm (p + q + h - 9 + f) ?s4
              [3, 2, 6, 9]"
    by (rule dram_event [where T = "9" and i = 9
          and r = "\<lparr>req_bank = 3, req_row = 1, req_event_cycle = 9,
                   req_scheduled = False\<rparr>"])
      (use assms in \<open>simp_all add: dram_event_defs\<close>)
  have e5: "dram_run True ?tm (p + q + h - 9 + f) ?s4
              [3, 2, 6, 9]
          = dram_run True ?tm (p + q + h - 12 + f) ?s5
              [3, 2, 6, 9, 12]"
    by (rule dram_event [where T = "12" and i = 12
          and r = "\<lparr>req_bank = 4, req_row = 0, req_event_cycle = 12,
                   req_scheduled = False\<rparr>"])
      (use assms in \<open>simp_all add: dram_event_defs\<close>)
  have e6: "dram_run True ?tm (p + q + h - 12 + f) ?s5
              [3, 2, 6, 9, 12]
          = dram_run True ?tm (p + q + h - 15 + f) ?s6
              [3, 2, 6, 9, 12, 15]"
    by (rule dram_event [where T = "15" and i = 15
          and r = "\<lparr>req_bank = 5, req_row = 1, req_event_cycle = 15,
                   req_scheduled = False\<rparr>"])
      (use assms in \<open>simp_all add: dram_event_defs\<close>)
  have e7: "dram_run True ?tm (p + q + h - 15 + f) ?s6
              [3, 2, 6, 9, 12, 15]
          = dram_run True ?tm (p + q + h - 18 + f) ?s7
              [3, 2, 6, 9, 12, 15, 19]"
    by (rule dram_event [where T = "18" and i = 19
          and r = "\<lparr>req_bank = 6, req_row = 1, req_event_cycle = 18,
                   req_scheduled = False\<rparr>"])
      (use assms in \<open>simp_all add: dram_event_defs\<close>)
  have e8: "dram_run True ?tm (p + q + h - 18 + f) ?s7
              [3, 2, 6, 9, 12, 15, 19]
          = dram_run True ?tm f ?s8
              [3, 2, 6, 9, 12, 15, 19, 5]"
    by (rule dram_event [where T = "p + q + h" and i = 5
          and r = "\<lparr>req_bank = 1, req_row = 1, req_event_cycle = 5,
                   req_scheduled = False\<rparr>"])
      (use assms in \<open>simp_all add: dram_event_defs\<close>)
  show ?thesis
    by (simp only: e1 e2 e3 e4 e5 e6 e7 e8)
qed

text \<open>
  C2, as the claim states it, fails on the order the test expects. Requests 6, 7 and 8 are
  the requests of bank 2 and are expected 3rd, 10th and 17th. Request 6 opens row 0.
  Request 8 targets row 0 again, request 7 targets row 1, and request 7 arrives before
  request 8. When request 7 is scheduled, request 8 has arrived: request 19, expected 7th,
  arrives at cycle 18, and request 8 at cycle 8. So the older request that targets a closed
  row is scheduled ahead of the later request that targets the open row.
\<close>

theorem expected_order_closed_row_first:
  "expected_order ! 2 = 6 \<and> expected_order ! 9 = 7 \<and> expected_order ! 16 = 8
   \<and> expected_order ! 6 = 19
   \<and> bak_access ! 6 = 2 \<and> bak_access ! 7 = 2 \<and> bak_access ! 8 = 2
   \<and> count_list bak_access 2 = 3
   \<and> row_access ! 6 = 0 \<and> row_access ! 7 = 1 \<and> row_access ! 8 = 0
   \<and> arriv_time ! 7 < arriv_time ! 8 \<and> arriv_time ! 8 \<le> arriv_time ! 19"
  by (simp add: expected_order_def bak_access_def row_access_def arriv_time_def)

text \<open>
  C2, amended. Let the controller schedule, in each cycle, the oldest arrived request whose
  bank is idle, with no preference for open rows, and let \<open>t_CAS\<close> be at least 17 cycles and
  \<open>t_RP + t_RCD\<close> at least 3 cycles. Then the harness of the test returns, for the request
  stream of the scenario on 8 banks, exactly the expected order.
\<close>

theorem dram_test_expected_order:
  fixes p q h :: nat
  assumes "17 \<le> h" and "3 \<le> p + q"
  shows "dram_test (2 * (p + q + h) + 19) False \<lparr>t_RP = p, t_RCD = q, t_CAS = h\<rparr> 8
           packet_stream arriv_time
         = Some expected_order"
proof -
  have init: "\<lparr>current_cycle = 0,
        RQ = map2 (\<lambda>(b, r) cyc. Some \<lparr>req_bank = b, req_row = r, req_event_cycle = cyc,
                                       req_scheduled = False\<rparr>) packet_stream arriv_time,
        banks = replicate 8 \<lparr>current_row = None, row_busy_until = 0, bank_busy_until = 0\<rparr>\<rparr>
      = mk 0
          [None, None, None, None, None, None, None, None, None, None, None, None, None,
           None, None, None, None, None, None, None, None]
          [(None, 0, 0), (None, 0, 0), (None, 0, 0), (None, 0, 0), (None, 0, 0),
           (None, 0, 0), (None, 0, 0), (None, 0, 0)]"
    by (simp add: mk_def mk_req_def mk_bank_def packet_stream_def bak_access_def
        row_access_def arriv_time_def numeral_eq_Suc)
  have flags: "replicate (length packet_stream) False = map is_scheduled (RQ (mk 0
          [None, None, None, None, None, None, None, None, None, None, None, None, None,
           None, None, None, None, None, None, None, None]
          [(None, 0, 0), (None, 0, 0), (None, 0, 0), (None, 0, 0), (None, 0, 0),
           (None, 0, 0), (None, 0, 0), (None, 0, 0)]))"
    by (simp add: mk_def mk_req_def is_scheduled_def packet_stream_def bak_access_def
        row_access_def arriv_time_def numeral_eq_Suc)
  have len: "length packet_stream = 21"
    by (simp add: packet_stream_def bak_access_def row_access_def)
  have fuel: "2 * (p + q + h) + 19 = 2 * (p + q) + 2 * h + 19"
    by simp
  have fin: "dram_run False tm 0 c
      [3, 2, 6, 9, 12, 15, 19, 4, 0, 7, 10, 13, 16, 20, 1, 5, 8, 11, 14, 17, 18]
      = Some expected_order" for tm c
    unfolding dram_run_def
    by (subst dram_test_loop.simps) (simp add: expected_order_def)
  show ?thesis
    unfolding dram_test_def init flags fuel
    using schedule_without_row_preference [OF assms] fin
    unfolding dram_run_def len by simp
qed

theorem dram_test_expected_order_witness:
  "(17::nat) \<le> 32 \<and> (3::nat) \<le> 20 + 20
   \<and> dram_test 163 False \<lparr>t_RP = 20, t_RCD = 20, t_CAS = 32\<rparr> 8 packet_stream arriv_time
       = Some [3, 2, 6, 9, 12, 15, 19, 4, 0, 7, 10, 13, 16, 20, 1, 5, 8, 11, 14, 17, 18]"
  using dram_test_expected_order [of 32 20 20]
  by (simp add: expected_order_def)

text \<open>
  With the preference for open rows of rule 1 the harness does not return the expected
  order, whatever the fuel: the eighth request scheduled is request 5, which targets the
  row that request 3 opened in bank 1, and not the older request 4.
\<close>

lemma dram_test_row_hit_first_differs:
  fixes p q h :: nat
  assumes "17 \<le> h" and "3 \<le> p + q"
  shows "dram_test fuel True \<lparr>t_RP = p, t_RCD = q, t_CAS = h\<rparr> 8 packet_stream arriv_time
         \<noteq> Some expected_order"
proof
  let ?tm = "\<lparr>t_RP = p, t_RCD = q, t_CAS = h\<rparr>"
  let ?s0 = "mk 0
          [None, None, None, None, None, None, None, None, None, None, None, None, None,
           None, None, None, None, None, None, None, None]
          [(None, 0, 0), (None, 0, 0), (None, 0, 0), (None, 0, 0), (None, 0, 0),
           (None, 0, 0), (None, 0, 0), (None, 0, 0)]"
  assume a: "dram_test fuel True ?tm 8 packet_stream arriv_time = Some expected_order"
  have init: "\<lparr>current_cycle = 0,
        RQ = map2 (\<lambda>(b, r) cyc. Some \<lparr>req_bank = b, req_row = r, req_event_cycle = cyc,
                                       req_scheduled = False\<rparr>) packet_stream arriv_time,
        banks = replicate 8 \<lparr>current_row = None, row_busy_until = 0, bank_busy_until = 0\<rparr>\<rparr>
      = ?s0"
    by (simp add: mk_def mk_req_def mk_bank_def packet_stream_def bak_access_def
        row_access_def arriv_time_def numeral_eq_Suc)
  have flags: "replicate 21 False = map is_scheduled (RQ ?s0)"
    by (simp add: mk_def mk_req_def is_scheduled_def packet_stream_def bak_access_def
        row_access_def arriv_time_def numeral_eq_Suc)
  have len: "length packet_stream = 21"
    by (simp add: packet_stream_def bak_access_def row_access_def)
  from a have r0: "dram_run True ?tm fuel ?s0 [] = Some expected_order"
    unfolding dram_test_def init len flags dram_run_def .
  have r1: "dram_run True ?tm (fuel + (p + q + h + 1)) ?s0 [] = Some expected_order"
    unfolding dram_run_def by (rule dram_test_loop_more_fuel [OF r0 [unfolded dram_run_def]])
  have k: "fuel + (p + q + h + 1) = p + q + h + 1 + fuel"
    by simp
  have r2: "dram_run True ?tm (p + q + h + 1 + fuel) ?s0 [] = Some expected_order"
    using r1 unfolding k .
  note r3 = trans [OF schedule_with_row_preference [OF assms, of fuel, symmetric] r2]
  from dram_test_loop_extends [OF r3 [unfolded dram_run_def]]
  obtain rest where "expected_order = [3, 2, 6, 9, 12, 15, 19, 5] @ rest"
    by blast
  then show False
    by (simp add: expected_order_def)
qed

subsection \<open>The page table walker\<close>

text \<open>A pass of the loop in which nothing is due only advances the clock.\<close>

lemma operate_elements_quiet:
  assumes "tb_quiet tb T" and "tb_cycle tb < T"
  shows "operate_elements cfg tb = tb\<lparr>tb_cycle := tb_cycle tb + 1\<rparr>"
proof -
  have rq: "uut_RQ tb = []" and ret: "uut_returned tb = []"
    using assms(1) by (simp_all add: tb_quiet_def)
  have nd: "filter (due tb) (uut_MSHR tb) = []"
    using assms unfolding tb_quiet_def list_all_iff due_def by (auto simp: filter_empty_conv)
  have md: "map (\<lambda>e. if due tb e then e\<lparr>mshr_issued := True\<rparr> else e) (uut_MSHR tb)
            = uut_MSHR tb"
    using nd by (auto simp: filter_empty_conv intro: map_idI)
  have a: "tb\<lparr>uut_returned := []\<rparr> = tb"
    using ret by (cases tb) simp
  have b: "handle_read cfg (uut_RQ tb) tb = tb"
    using rq by (cases tb) simp
  have c: "issue_reads cfg tb = tb"
    unfolding issue_reads_def nd md by (cases tb) simp
  have u: "uut_operate cfg tb = tb"
    unfolding uut_operate_def ret a by (simp add: b c)
  have nr: "filter (\<lambda>r. ll_ready r \<le> tb_cycle tb) (ll_queue tb) = []"
    using assms unfolding tb_quiet_def list_all_iff by (auto simp: filter_empty_conv)
  have kr: "filter (\<lambda>r. \<not> ll_ready r \<le> tb_cycle tb) (ll_queue tb) = ll_queue tb"
    using assms unfolding tb_quiet_def list_all_iff by (auto simp: filter_id_conv)
  have m: "mock_ll_operate tb = tb"
    unfolding mock_ll_operate_def nr kr by (cases tb) simp
  show ?thesis
    by (simp add: operate_elements_def u m)
qed

lemma tb_quiet_cycle: "tb_quiet (tb\<lparr>tb_cycle := t\<rparr>) T = tb_quiet tb T"
  by (simp add: tb_quiet_def)

lemma tb_run_quiet:
  "tb_quiet tb (tb_cycle tb + n) \<Longrightarrow> tb_run n tb = tb\<lparr>tb_cycle := tb_cycle tb + n\<rparr>"
proof (induction n arbitrary: tb)
  case 0
  then show ?case
    by (simp add: tb_run_def)
next
  case (Suc n)
  let ?tb = "tb\<lparr>tb_cycle := tb_cycle tb + 1\<rparr>"
  have "tb_run (Suc n) tb = tb_run n (operate_elements testbench_config tb)"
    by (simp add: tb_run_def funpow_swap1)
  also have "\<dots> = tb_run n ?tb"
    using operate_elements_quiet [OF Suc.prems] by simp
  also have "\<dots> = ?tb\<lparr>tb_cycle := tb_cycle ?tb + n\<rparr>"
    using Suc.prems by (intro Suc.IH) (simp add: tb_quiet_cycle)
  finally show ?case
    by simp
qed

text \<open>
  One event of the scenario: \<open>n\<close> passes in which nothing is due, then one pass that takes
  the test bench from \<open>tb\<close> (at the cycle of the event) to \<open>tb'\<close>.
\<close>

lemma tb_run_event:
  assumes "n = 0 \<or> tb_quiet tb (tb_cycle tb + n)"
    and "operate_elements testbench_config (tb\<lparr>tb_cycle := tb_cycle tb + n\<rparr>) = tb'"
    and "k = m + Suc n"
  shows "tb_run k tb = tb_run m tb'"
proof -
  have "tb_run k tb = tb_run m (tb_run (Suc n) tb)"
    unfolding assms(3) tb_run_def by (simp only: funpow_add o_apply)
  also have "tb_run (Suc n) tb = operate_elements testbench_config (tb_run n tb)"
    by (simp add: tb_run_def)
  also have "tb_run n tb = tb\<lparr>tb_cycle := tb_cycle tb + n\<rparr>"
  proof (cases "n = 0")
    case True
    then show ?thesis
      by (simp add: tb_run_def)
  next
    case False
    with assms(1) show ?thesis
      by (intro tb_run_quiet) simp
  qed
  finally show ?thesis
    using assms(2) by simp
qed

lemma tb_run_rest:
  assumes "tb_quiet tb (tb_cycle tb + n)" and "tb' = tb\<lparr>tb_cycle := tb_cycle tb + n\<rparr>"
  shows "tb_run n tb = tb'"
  using tb_run_quiet [OF assms(1)] assms(2) by simp

lemmas ptw_event_defs =
  tb_quiet_def tb_state_def pk_def operate_elements_def uut_operate_def issue_reads_def due_def
  mock_ll_operate_def get_pte_pa_def pte_key_of_def shamt_def same_walk_def
  testbench_config_def Let_def

text \<open>The walk for the packet of ASID 0 alone, event by event, and the idle cycles after.\<close>

lemma walk_of_test_a:
  "tb_run 10000
     (tb_state 0 [(0, 0)] [0] [] [] [] [] 0)
   = tb_state 10000 [(0, 1035)] [] [] [] [(0, 5), (0, 4), (0, 3), (0, 2), (0, 1)] [] 5"
proof -
  let ?s0 = "tb_state 0 [(0, 0)] [0] [] [] [] [] 0"
  let ?s1 = "tb_state 1 [(0, 0)] [] [(0, 5, 201, False)] [] [(0, 5)] [] 0"
  let ?s2 = "tb_state 202 [(0, 0)] [] [(0, 5, 201, True)] [] [(0, 5)] [(0, 206)] 1"
  let ?s3 = "tb_state 207 [(0, 0)] [] [(0, 5, 201, True)] [0] [(0, 5)] [] 1"
  let ?s4 = "tb_state 208 [(0, 0)] [] [(0, 4, 408, False)] [] [(0, 5), (0, 4)] [] 1"
  let ?s5 = "tb_state 409 [(0, 0)] [] [(0, 4, 408, True)] [] [(0, 5), (0, 4)] [(0, 413)] 2"
  let ?s6 = "tb_state 414 [(0, 0)] [] [(0, 4, 408, True)] [0] [(0, 5), (0, 4)] [] 2"
  let ?s7 = "tb_state 415 [(0, 0)] [] [(0, 3, 615, False)] [] [(0, 5), (0, 4), (0, 3)] [] 2"
  let ?s8 = "tb_state 616 [(0, 0)] [] [(0, 3, 615, True)] [] [(0, 5), (0, 4), (0, 3)]
               [(0, 620)] 3"
  let ?s9 = "tb_state 621 [(0, 0)] [] [(0, 3, 615, True)] [0] [(0, 5), (0, 4), (0, 3)] [] 3"
  let ?s10 = "tb_state 622 [(0, 0)] [] [(0, 2, 822, False)] []
               [(0, 5), (0, 4), (0, 3), (0, 2)] [] 3"
  let ?s11 = "tb_state 823 [(0, 0)] [] [(0, 2, 822, True)] []
               [(0, 5), (0, 4), (0, 3), (0, 2)] [(0, 827)] 4"
  let ?s12 = "tb_state 828 [(0, 0)] [] [(0, 2, 822, True)] [0]
               [(0, 5), (0, 4), (0, 3), (0, 2)] [] 4"
  let ?s13 = "tb_state 829 [(0, 0)] [] [(0, 1, 1029, False)] []
               [(0, 5), (0, 4), (0, 3), (0, 2), (0, 1)] [] 4"
  let ?s14 = "tb_state 1030 [(0, 0)] [] [(0, 1, 1029, True)] []
               [(0, 5), (0, 4), (0, 3), (0, 2), (0, 1)] [(0, 1034)] 5"
  let ?s15 = "tb_state 1035 [(0, 0)] [] [(0, 1, 1029, True)] [0]
               [(0, 5), (0, 4), (0, 3), (0, 2), (0, 1)] [] 5"
  let ?s16 = "tb_state 1036 [(0, 1035)] [] [] [] [(0, 5), (0, 4), (0, 3), (0, 2), (0, 1)] []
               5"
  have e1: "tb_run 10000 ?s0 = tb_run 9999 ?s1"
    by (rule tb_run_event [where n = 0]) (simp_all add: ptw_event_defs)
  have e2: "tb_run 9999 ?s1 = tb_run 9798 ?s2"
    by (rule tb_run_event [where n = 200]) (simp_all add: ptw_event_defs)
  have e3: "tb_run 9798 ?s2 = tb_run 9793 ?s3"
    by (rule tb_run_event [where n = 4]) (simp_all add: ptw_event_defs)
  have e4: "tb_run 9793 ?s3 = tb_run 9792 ?s4"
    by (rule tb_run_event [where n = 0]) (simp_all add: ptw_event_defs)
  have e5: "tb_run 9792 ?s4 = tb_run 9591 ?s5"
    by (rule tb_run_event [where n = 200]) (simp_all add: ptw_event_defs)
  have e6: "tb_run 9591 ?s5 = tb_run 9586 ?s6"
    by (rule tb_run_event [where n = 4]) (simp_all add: ptw_event_defs)
  have e7: "tb_run 9586 ?s6 = tb_run 9585 ?s7"
    by (rule tb_run_event [where n = 0]) (simp_all add: ptw_event_defs)
  have e8: "tb_run 9585 ?s7 = tb_run 9384 ?s8"
    by (rule tb_run_event [where n = 200]) (simp_all add: ptw_event_defs)
  have e9: "tb_run 9384 ?s8 = tb_run 9379 ?s9"
    by (rule tb_run_event [where n = 4]) (simp_all add: ptw_event_defs)
  have e10: "tb_run 9379 ?s9 = tb_run 9378 ?s10"
    by (rule tb_run_event [where n = 0]) (simp_all add: ptw_event_defs)
  have e11: "tb_run 9378 ?s10 = tb_run 9177 ?s11"
    by (rule tb_run_event [where n = 200]) (simp_all add: ptw_event_defs)
  have e12: "tb_run 9177 ?s11 = tb_run 9172 ?s12"
    by (rule tb_run_event [where n = 4]) (simp_all add: ptw_event_defs)
  have e13: "tb_run 9172 ?s12 = tb_run 9171 ?s13"
    by (rule tb_run_event [where n = 0]) (simp_all add: ptw_event_defs)
  have e14: "tb_run 9171 ?s13 = tb_run 8970 ?s14"
    by (rule tb_run_event [where n = 200]) (simp_all add: ptw_event_defs)
  have e15: "tb_run 8970 ?s14 = tb_run 8965 ?s15"
    by (rule tb_run_event [where n = 4]) (simp_all add: ptw_event_defs)
  have e16: "tb_run 8965 ?s15 = tb_run 8964 ?s16"
    by (rule tb_run_event [where n = 0]) (simp_all add: ptw_event_defs)
  have rest: "tb_run 8964 ?s16
      = tb_state 10000 [(0, 1035)] [] [] [] [(0, 5), (0, 4), (0, 3), (0, 2), (0, 1)] [] 5"
    by (rule tb_run_rest) (simp_all add: ptw_event_defs)
  show ?thesis
    by (simp only: e1 e2 e3 e4 e5 e6 e7 e8 e9 e10 e11 e12
        e13 e14 e15 e16 rest)
qed

text \<open>The walk for the packet of ASID 1, started 10000 cycles after the first.\<close>

lemma walk_of_test_b:
  "tb_run 10000
     (tb_state 10000 [(0, 1035), (1, 0)] [1] [] [] [(0, 5), (0, 4), (0, 3), (0, 2), (0, 1)]
       [] 5)
   = tb_state 20000 [(0, 1035), (1, 11035)] [] [] []
       [(0, 5), (0, 4), (0, 3), (0, 2), (0, 1), (1, 5), (1, 4), (1, 3), (1, 2), (1, 1)] [] 10"
proof -
  let ?s0 = "tb_state 10000 [(0, 1035), (1, 0)] [1] [] []
               [(0, 5), (0, 4), (0, 3), (0, 2), (0, 1)] [] 5"
  let ?s1 = "tb_state 10001 [(0, 1035), (1, 0)] [] [(1, 5, 10201, False)] []
               [(0, 5), (0, 4), (0, 3), (0, 2), (0, 1), (1, 5)] [] 5"
  let ?s2 = "tb_state 10202 [(0, 1035), (1, 0)] [] [(1, 5, 10201, True)] []
               [(0, 5), (0, 4), (0, 3), (0, 2), (0, 1), (1, 5)] [(1, 10206)] 6"
  let ?s3 = "tb_state 10207 [(0, 1035), (1, 0)] [] [(1, 5, 10201, True)] [1]
               [(0, 5), (0, 4), (0, 3), (0, 2), (0, 1), (1, 5)] [] 6"
  let ?s4 = "tb_state 10208 [(0, 1035), (1, 0)] [] [(1, 4, 10408, False)] []
               [(0, 5), (0, 4), (0, 3), (0, 2), (0, 1), (1, 5), (1, 4)] [] 6"
  let ?s5 = "tb_state 10409 [(0, 1035), (1, 0)] [] [(1, 4, 10408, True)] []
               [(0, 5), (0, 4), (0, 3), (0, 2), (0, 1), (1, 5), (1, 4)] [(1, 10413)] 7"
  let ?s6 = "tb_state 10414 [(0, 1035), (1, 0)] [] [(1, 4, 10408, True)] [1]
               [(0, 5), (0, 4), (0, 3), (0, 2), (0, 1), (1, 5), (1, 4)] [] 7"
  let ?s7 = "tb_state 10415 [(0, 1035), (1, 0)] [] [(1, 3, 10615, False)] []
               [(0, 5), (0, 4), (0, 3), (0, 2), (0, 1), (1, 5), (1, 4), (1, 3)] [] 7"
  let ?s8 = "tb_state 10616 [(0, 1035), (1, 0)] [] [(1, 3, 10615, True)] []
               [(0, 5), (0, 4), (0, 3), (0, 2), (0, 1), (1, 5), (1, 4), (1, 3)] [(1, 10620)] 8"
  let ?s9 = "tb_state 10621 [(0, 1035), (1, 0)] [] [(1, 3, 10615, True)] [1]
               [(0, 5), (0, 4), (0, 3), (0, 2), (0, 1), (1, 5), (1, 4), (1, 3)] [] 8"
  let ?s10 = "tb_state 10622 [(0, 1035), (1, 0)] [] [(1, 2, 10822, False)] []
               [(0, 5), (0, 4), (0, 3), (0, 2), (0, 1), (1, 5), (1, 4), (1, 3), (1, 2)] [] 8"
  let ?s11 = "tb_state 10823 [(0, 1035), (1, 0)] [] [(1, 2, 10822, True)] []
               [(0, 5), (0, 4), (0, 3), (0, 2), (0, 1), (1, 5), (1, 4), (1, 3), (1, 2)]
               [(1, 10827)] 9"
  let ?s12 = "tb_state 10828 [(0, 1035), (1, 0)] [] [(1, 2, 10822, True)] [1]
               [(0, 5), (0, 4), (0, 3), (0, 2), (0, 1), (1, 5), (1, 4), (1, 3), (1, 2)] [] 9"
  let ?s13 = "tb_state 10829 [(0, 1035), (1, 0)] [] [(1, 1, 11029, False)] []
               [(0, 5), (0, 4), (0, 3), (0, 2), (0, 1), (1, 5), (1, 4), (1, 3), (1, 2), (1, 1)]
               [] 9"
  let ?s14 = "tb_state 11030 [(0, 1035), (1, 0)] [] [(1, 1, 11029, True)] []
               [(0, 5), (0, 4), (0, 3), (0, 2), (0, 1), (1, 5), (1, 4), (1, 3), (1, 2), (1, 1)]
               [(1, 11034)] 10"
  let ?s15 = "tb_state 11035 [(0, 1035), (1, 0)] [] [(1, 1, 11029, True)] [1]
               [(0, 5), (0, 4), (0, 3), (0, 2), (0, 1), (1, 5), (1, 4), (1, 3), (1, 2), (1, 1)]
               [] 10"
  let ?s16 = "tb_state 11036 [(0, 1035), (1, 11035)] [] [] []
               [(0, 5), (0, 4), (0, 3), (0, 2), (0, 1), (1, 5), (1, 4), (1, 3), (1, 2), (1, 1)]
               [] 10"
  have e1: "tb_run 10000 ?s0 = tb_run 9999 ?s1"
    by (rule tb_run_event [where n = 0]) (simp_all add: ptw_event_defs)
  have e2: "tb_run 9999 ?s1 = tb_run 9798 ?s2"
    by (rule tb_run_event [where n = 200]) (simp_all add: ptw_event_defs)
  have e3: "tb_run 9798 ?s2 = tb_run 9793 ?s3"
    by (rule tb_run_event [where n = 4]) (simp_all add: ptw_event_defs)
  have e4: "tb_run 9793 ?s3 = tb_run 9792 ?s4"
    by (rule tb_run_event [where n = 0]) (simp_all add: ptw_event_defs)
  have e5: "tb_run 9792 ?s4 = tb_run 9591 ?s5"
    by (rule tb_run_event [where n = 200]) (simp_all add: ptw_event_defs)
  have e6: "tb_run 9591 ?s5 = tb_run 9586 ?s6"
    by (rule tb_run_event [where n = 4]) (simp_all add: ptw_event_defs)
  have e7: "tb_run 9586 ?s6 = tb_run 9585 ?s7"
    by (rule tb_run_event [where n = 0]) (simp_all add: ptw_event_defs)
  have e8: "tb_run 9585 ?s7 = tb_run 9384 ?s8"
    by (rule tb_run_event [where n = 200]) (simp_all add: ptw_event_defs)
  have e9: "tb_run 9384 ?s8 = tb_run 9379 ?s9"
    by (rule tb_run_event [where n = 4]) (simp_all add: ptw_event_defs)
  have e10: "tb_run 9379 ?s9 = tb_run 9378 ?s10"
    by (rule tb_run_event [where n = 0]) (simp_all add: ptw_event_defs)
  have e11: "tb_run 9378 ?s10 = tb_run 9177 ?s11"
    by (rule tb_run_event [where n = 200]) (simp_all add: ptw_event_defs)
  have e12: "tb_run 9177 ?s11 = tb_run 9172 ?s12"
    by (rule tb_run_event [where n = 4]) (simp_all add: ptw_event_defs)
  have e13: "tb_run 9172 ?s12 = tb_run 9171 ?s13"
    by (rule tb_run_event [where n = 0]) (simp_all add: ptw_event_defs)
  have e14: "tb_run 9171 ?s13 = tb_run 8970 ?s14"
    by (rule tb_run_event [where n = 200]) (simp_all add: ptw_event_defs)
  have e15: "tb_run 8970 ?s14 = tb_run 8965 ?s15"
    by (rule tb_run_event [where n = 4]) (simp_all add: ptw_event_defs)
  have e16: "tb_run 8965 ?s15 = tb_run 8964 ?s16"
    by (rule tb_run_event [where n = 0]) (simp_all add: ptw_event_defs)
  have rest: "tb_run 8964 ?s16
      = tb_state 20000 [(0, 1035), (1, 11035)] [] [] []
          [(0, 5), (0, 4), (0, 3), (0, 2), (0, 1), (1, 5), (1, 4), (1, 3), (1, 2), (1, 1)] []
          10"
    by (rule tb_run_rest) (simp_all add: ptw_event_defs)
  show ?thesis
    by (simp only: e1 e2 e3 e4 e5 e6 e7 e8 e9 e10 e11 e12
        e13 e14 e15 e16 rest)
qed

text \<open>The two walks started in the same cycle.\<close>

lemma walks_together:
  "tb_run 10000
     (tb_state 0 [(0, 0), (1, 0)] [0, 1] [] [] [] [] 0)
   = tb_state 10000 [(0, 1035), (1, 1035)] [] [] []
       [(0, 5), (1, 5), (0, 4), (1, 4), (0, 3), (1, 3), (0, 2), (1, 2), (0, 1), (1, 1)] [] 10"
proof -
  let ?s0 = "tb_state 0 [(0, 0), (1, 0)] [0, 1] [] [] [] [] 0"
  let ?s1 = "tb_state 1 [(0, 0), (1, 0)] [] [(0, 5, 201, False), (1, 5, 201, False)] []
               [(0, 5), (1, 5)] [] 0"
  let ?s2 = "tb_state 202 [(0, 0), (1, 0)] [] [(0, 5, 201, True), (1, 5, 201, True)] []
               [(0, 5), (1, 5)] [(0, 206), (1, 206)] 2"
  let ?s3 = "tb_state 207 [(0, 0), (1, 0)] [] [(0, 5, 201, True), (1, 5, 201, True)] [0, 1]
               [(0, 5), (1, 5)] [] 2"
  let ?s4 = "tb_state 208 [(0, 0), (1, 0)] [] [(0, 4, 408, False), (1, 4, 408, False)] []
               [(0, 5), (1, 5), (0, 4), (1, 4)] [] 2"
  let ?s5 = "tb_state 409 [(0, 0), (1, 0)] [] [(0, 4, 408, True), (1, 4, 408, True)] []
               [(0, 5), (1, 5), (0, 4), (1, 4)] [(0, 413), (1, 413)] 4"
  let ?s6 = "tb_state 414 [(0, 0), (1, 0)] [] [(0, 4, 408, True), (1, 4, 408, True)] [0, 1]
               [(0, 5), (1, 5), (0, 4), (1, 4)] [] 4"
  let ?s7 = "tb_state 415 [(0, 0), (1, 0)] [] [(0, 3, 615, False), (1, 3, 615, False)] []
               [(0, 5), (1, 5), (0, 4), (1, 4), (0, 3), (1, 3)] [] 4"
  let ?s8 = "tb_state 616 [(0, 0), (1, 0)] [] [(0, 3, 615, True), (1, 3, 615, True)] []
               [(0, 5), (1, 5), (0, 4), (1, 4), (0, 3), (1, 3)] [(0, 620), (1, 620)] 6"
  let ?s9 = "tb_state 621 [(0, 0), (1, 0)] [] [(0, 3, 615, True), (1, 3, 615, True)] [0, 1]
               [(0, 5), (1, 5), (0, 4), (1, 4), (0, 3), (1, 3)] [] 6"
  let ?s10 = "tb_state 622 [(0, 0), (1, 0)] [] [(0, 2, 822, False), (1, 2, 822, False)] []
               [(0, 5), (1, 5), (0, 4), (1, 4), (0, 3), (1, 3), (0, 2), (1, 2)] [] 6"
  let ?s11 = "tb_state 823 [(0, 0), (1, 0)] [] [(0, 2, 822, True), (1, 2, 822, True)] []
               [(0, 5), (1, 5), (0, 4), (1, 4), (0, 3), (1, 3), (0, 2), (1, 2)]
               [(0, 827), (1, 827)] 8"
  let ?s12 = "tb_state 828 [(0, 0), (1, 0)] [] [(0, 2, 822, True), (1, 2, 822, True)] [0, 1]
               [(0, 5), (1, 5), (0, 4), (1, 4), (0, 3), (1, 3), (0, 2), (1, 2)] [] 8"
  let ?s13 = "tb_state 829 [(0, 0), (1, 0)] [] [(0, 1, 1029, False), (1, 1, 1029, False)] []
               [(0, 5), (1, 5), (0, 4), (1, 4), (0, 3), (1, 3), (0, 2), (1, 2), (0, 1), (1, 1)]
               [] 8"
  let ?s14 = "tb_state 1030 [(0, 0), (1, 0)] [] [(0, 1, 1029, True), (1, 1, 1029, True)] []
               [(0, 5), (1, 5), (0, 4), (1, 4), (0, 3), (1, 3), (0, 2), (1, 2), (0, 1), (1, 1)]
               [(0, 1034), (1, 1034)] 10"
  let ?s15 = "tb_state 1035 [(0, 0), (1, 0)] [] [(0, 1, 1029, True), (1, 1, 1029, True)]
               [0, 1]
               [(0, 5), (1, 5), (0, 4), (1, 4), (0, 3), (1, 3), (0, 2), (1, 2), (0, 1), (1, 1)]
               [] 10"
  let ?s16 = "tb_state 1036 [(0, 1035), (1, 1035)] [] [] []
               [(0, 5), (1, 5), (0, 4), (1, 4), (0, 3), (1, 3), (0, 2), (1, 2), (0, 1), (1, 1)]
               [] 10"
  have e1: "tb_run 10000 ?s0 = tb_run 9999 ?s1"
    by (rule tb_run_event [where n = 0]) (simp_all add: ptw_event_defs)
  have e2: "tb_run 9999 ?s1 = tb_run 9798 ?s2"
    by (rule tb_run_event [where n = 200]) (simp_all add: ptw_event_defs)
  have e3: "tb_run 9798 ?s2 = tb_run 9793 ?s3"
    by (rule tb_run_event [where n = 4]) (simp_all add: ptw_event_defs)
  have e4: "tb_run 9793 ?s3 = tb_run 9792 ?s4"
    by (rule tb_run_event [where n = 0]) (simp_all add: ptw_event_defs)
  have e5: "tb_run 9792 ?s4 = tb_run 9591 ?s5"
    by (rule tb_run_event [where n = 200]) (simp_all add: ptw_event_defs)
  have e6: "tb_run 9591 ?s5 = tb_run 9586 ?s6"
    by (rule tb_run_event [where n = 4]) (simp_all add: ptw_event_defs)
  have e7: "tb_run 9586 ?s6 = tb_run 9585 ?s7"
    by (rule tb_run_event [where n = 0]) (simp_all add: ptw_event_defs)
  have e8: "tb_run 9585 ?s7 = tb_run 9384 ?s8"
    by (rule tb_run_event [where n = 200]) (simp_all add: ptw_event_defs)
  have e9: "tb_run 9384 ?s8 = tb_run 9379 ?s9"
    by (rule tb_run_event [where n = 4]) (simp_all add: ptw_event_defs)
  have e10: "tb_run 9379 ?s9 = tb_run 9378 ?s10"
    by (rule tb_run_event [where n = 0]) (simp_all add: ptw_event_defs)
  have e11: "tb_run 9378 ?s10 = tb_run 9177 ?s11"
    by (rule tb_run_event [where n = 200]) (simp_all add: ptw_event_defs)
  have e12: "tb_run 9177 ?s11 = tb_run 9172 ?s12"
    by (rule tb_run_event [where n = 4]) (simp_all add: ptw_event_defs)
  have e13: "tb_run 9172 ?s12 = tb_run 9171 ?s13"
    by (rule tb_run_event [where n = 0]) (simp_all add: ptw_event_defs)
  have e14: "tb_run 9171 ?s13 = tb_run 8970 ?s14"
    by (rule tb_run_event [where n = 200]) (simp_all add: ptw_event_defs)
  have e15: "tb_run 8970 ?s14 = tb_run 8965 ?s15"
    by (rule tb_run_event [where n = 4]) (simp_all add: ptw_event_defs)
  have e16: "tb_run 8965 ?s15 = tb_run 8964 ?s16"
    by (rule tb_run_event [where n = 0]) (simp_all add: ptw_event_defs)
  have rest: "tb_run 8964 ?s16
      = tb_state 10000 [(0, 1035), (1, 1035)] [] [] []
          [(0, 5), (1, 5), (0, 4), (1, 4), (0, 3), (1, 3), (0, 2), (1, 2), (0, 1), (1, 1)] []
          10"
    by (rule tb_run_rest) (simp_all add: ptw_event_defs)
  show ?thesis
    by (simp only: e1 e2 e3 e4 e5 e6 e7 e8 e9 e10 e11 e12
        e13 e14 e15 e16 rest)
qed

text \<open>Two packets of ASID 0 issued in the same cycle: the second joins the walk of the first.\<close>

lemma walks_of_one_asid:
  "tb_run 10000
     (tb_state 0 [(0, 0), (0, 0)] [0, 0] [] [] [] [] 0)
   = tb_state 10000 [(0, 1035), (0, 1035)] [] [] [] [(0, 5), (0, 4), (0, 3), (0, 2), (0, 1)]
       [] 5"
proof -
  let ?s0 = "tb_state 0 [(0, 0), (0, 0)] [0, 0] [] [] [] [] 0"
  let ?s1 = "tb_state 1 [(0, 0), (0, 0)] [] [(0, 5, 201, False)] [] [(0, 5)] [] 0"
  let ?s2 = "tb_state 202 [(0, 0), (0, 0)] [] [(0, 5, 201, True)] [] [(0, 5)] [(0, 206)] 1"
  let ?s3 = "tb_state 207 [(0, 0), (0, 0)] [] [(0, 5, 201, True)] [0] [(0, 5)] [] 1"
  let ?s4 = "tb_state 208 [(0, 0), (0, 0)] [] [(0, 4, 408, False)] [] [(0, 5), (0, 4)] [] 1"
  let ?s5 = "tb_state 409 [(0, 0), (0, 0)] [] [(0, 4, 408, True)] [] [(0, 5), (0, 4)]
               [(0, 413)] 2"
  let ?s6 = "tb_state 414 [(0, 0), (0, 0)] [] [(0, 4, 408, True)] [0] [(0, 5), (0, 4)] [] 2"
  let ?s7 = "tb_state 415 [(0, 0), (0, 0)] [] [(0, 3, 615, False)] []
               [(0, 5), (0, 4), (0, 3)] [] 2"
  let ?s8 = "tb_state 616 [(0, 0), (0, 0)] [] [(0, 3, 615, True)] []
               [(0, 5), (0, 4), (0, 3)] [(0, 620)] 3"
  let ?s9 = "tb_state 621 [(0, 0), (0, 0)] [] [(0, 3, 615, True)] [0]
               [(0, 5), (0, 4), (0, 3)] [] 3"
  let ?s10 = "tb_state 622 [(0, 0), (0, 0)] [] [(0, 2, 822, False)] []
               [(0, 5), (0, 4), (0, 3), (0, 2)] [] 3"
  let ?s11 = "tb_state 823 [(0, 0), (0, 0)] [] [(0, 2, 822, True)] []
               [(0, 5), (0, 4), (0, 3), (0, 2)] [(0, 827)] 4"
  let ?s12 = "tb_state 828 [(0, 0), (0, 0)] [] [(0, 2, 822, True)] [0]
               [(0, 5), (0, 4), (0, 3), (0, 2)] [] 4"
  let ?s13 = "tb_state 829 [(0, 0), (0, 0)] [] [(0, 1, 1029, False)] []
               [(0, 5), (0, 4), (0, 3), (0, 2), (0, 1)] [] 4"
  let ?s14 = "tb_state 1030 [(0, 0), (0, 0)] [] [(0, 1, 1029, True)] []
               [(0, 5), (0, 4), (0, 3), (0, 2), (0, 1)] [(0, 1034)] 5"
  let ?s15 = "tb_state 1035 [(0, 0), (0, 0)] [] [(0, 1, 1029, True)] [0]
               [(0, 5), (0, 4), (0, 3), (0, 2), (0, 1)] [] 5"
  let ?s16 = "tb_state 1036 [(0, 1035), (0, 1035)] [] [] []
               [(0, 5), (0, 4), (0, 3), (0, 2), (0, 1)] [] 5"
  have e1: "tb_run 10000 ?s0 = tb_run 9999 ?s1"
    by (rule tb_run_event [where n = 0]) (simp_all add: ptw_event_defs)
  have e2: "tb_run 9999 ?s1 = tb_run 9798 ?s2"
    by (rule tb_run_event [where n = 200]) (simp_all add: ptw_event_defs)
  have e3: "tb_run 9798 ?s2 = tb_run 9793 ?s3"
    by (rule tb_run_event [where n = 4]) (simp_all add: ptw_event_defs)
  have e4: "tb_run 9793 ?s3 = tb_run 9792 ?s4"
    by (rule tb_run_event [where n = 0]) (simp_all add: ptw_event_defs)
  have e5: "tb_run 9792 ?s4 = tb_run 9591 ?s5"
    by (rule tb_run_event [where n = 200]) (simp_all add: ptw_event_defs)
  have e6: "tb_run 9591 ?s5 = tb_run 9586 ?s6"
    by (rule tb_run_event [where n = 4]) (simp_all add: ptw_event_defs)
  have e7: "tb_run 9586 ?s6 = tb_run 9585 ?s7"
    by (rule tb_run_event [where n = 0]) (simp_all add: ptw_event_defs)
  have e8: "tb_run 9585 ?s7 = tb_run 9384 ?s8"
    by (rule tb_run_event [where n = 200]) (simp_all add: ptw_event_defs)
  have e9: "tb_run 9384 ?s8 = tb_run 9379 ?s9"
    by (rule tb_run_event [where n = 4]) (simp_all add: ptw_event_defs)
  have e10: "tb_run 9379 ?s9 = tb_run 9378 ?s10"
    by (rule tb_run_event [where n = 0]) (simp_all add: ptw_event_defs)
  have e11: "tb_run 9378 ?s10 = tb_run 9177 ?s11"
    by (rule tb_run_event [where n = 200]) (simp_all add: ptw_event_defs)
  have e12: "tb_run 9177 ?s11 = tb_run 9172 ?s12"
    by (rule tb_run_event [where n = 4]) (simp_all add: ptw_event_defs)
  have e13: "tb_run 9172 ?s12 = tb_run 9171 ?s13"
    by (rule tb_run_event [where n = 0]) (simp_all add: ptw_event_defs)
  have e14: "tb_run 9171 ?s13 = tb_run 8970 ?s14"
    by (rule tb_run_event [where n = 200]) (simp_all add: ptw_event_defs)
  have e15: "tb_run 8970 ?s14 = tb_run 8965 ?s15"
    by (rule tb_run_event [where n = 4]) (simp_all add: ptw_event_defs)
  have e16: "tb_run 8965 ?s15 = tb_run 8964 ?s16"
    by (rule tb_run_event [where n = 0]) (simp_all add: ptw_event_defs)
  have rest: "tb_run 8964 ?s16
      = tb_state 10000 [(0, 1035), (0, 1035)] [] [] []
          [(0, 5), (0, 4), (0, 3), (0, 2), (0, 1)] [] 5"
    by (rule tb_run_rest) (simp_all add: ptw_event_defs)
  show ?thesis
    by (simp only: e1 e2 e3 e4 e5 e6 e7 e8 e9 e10 e11 e12
        e13 e14 e15 e16 rest)
qed

lemma issue_test_a:
  "issue testbench_config test_a testbench_init = Some (tb_state 0 [(0, 0)] [0] [] [] [] [] 0)"
  by (simp add: issue_def testbench_config_def testbench_init_def test_a_def tb_state_def
      pk_def)

lemma issue_test_b_later:
  "issue testbench_config test_b
     (tb_state 10000 [(0, 1035)] [] [] [] [(0, 5), (0, 4), (0, 3), (0, 2), (0, 1)] [] 5)
   = Some (tb_state 10000 [(0, 1035), (1, 0)] [1] [] []
             [(0, 5), (0, 4), (0, 3), (0, 2), (0, 1)] [] 5)"
  by (simp add: issue_def testbench_config_def test_b_def tb_state_def pk_def)

lemma issue_test_b_at_once:
  "issue testbench_config test_b (tb_state 0 [(0, 0)] [0] [] [] [] [] 0)
   = Some (tb_state 0 [(0, 0), (1, 0)] [0, 1] [] [] [] [] 0)"
  by (simp add: issue_def testbench_config_def test_b_def tb_state_def pk_def)

text \<open>
  C5. In the test with 10000 cycles between the two packets and in the test with both
  packets issued in the same cycle, both calls of \<open>issue\<close> succeed, the lower mock has
  received exactly 10 reads when the test ends, and both packets of the upper mock have a
  positive return time (1035 and 11035, and 1035 twice), the last one in particular.
\<close>

theorem ptw_two_asids_ten_reads:
  "map_option (\<lambda>tb. (ll_packet_count tb, map return_time (ul_packets tb))) (test 10000)
     = Some (10, [1035, 11035])
   \<and> map_option (\<lambda>tb. (ll_packet_count tb, map return_time (ul_packets tb))) (test 0)
     = Some (10, [1035, 1035])
   \<and> map_option (\<lambda>tb. 0 < return_time (last (ul_packets tb))) (test 10000) = Some True
   \<and> map_option (\<lambda>tb. 0 < return_time (last (ul_packets tb))) (test 0) = Some True"
proof -
  have tb_run_0: "tb_run 0 tb = tb" for tb
    by (simp add: tb_run_def)
  have later: "test 10000 = Some (tb_state 20000 [(0, 1035), (1, 11035)] [] [] []
      [(0, 5), (0, 4), (0, 3), (0, 2), (0, 1), (1, 5), (1, 4), (1, 3), (1, 2), (1, 1)] [] 10)"
    unfolding test_def test_packets_def issue_test_a option.case tb_run_def [symmetric]
      walk_of_test_a issue_test_b_later walk_of_test_b ..
  have at_once: "test 0 = Some (tb_state 10000 [(0, 1035), (1, 1035)] [] [] []
      [(0, 5), (1, 5), (0, 4), (1, 4), (0, 3), (1, 3), (0, 2), (1, 2), (0, 1), (1, 1)] [] 10)"
    unfolding test_def test_packets_def issue_test_a option.case tb_run_def [symmetric]
      tb_run_0 issue_test_b_at_once walks_together ..
  show ?thesis
    unfolding later at_once by (simp add: tb_state_def)
qed

text \<open>
  The ASID is what keeps the two walks apart: when the second packet has ASID 0 as well and
  is issued in the same cycle, it joins the walk of the first and the lower mock receives 5
  reads.
\<close>

lemma ptw_one_asid_five_reads:
  "map_option (\<lambda>tb. (ll_packet_count tb, map return_time (ul_packets tb)))
     (test_packets test_a test_a 0) = Some (5, [1035, 1035])"
proof -
  have tb_run_0: "tb_run 0 tb = tb" for tb
    by (simp add: tb_run_def)
  have again: "issue testbench_config test_a (tb_state 0 [(0, 0)] [0] [] [] [] [] 0)
      = Some (tb_state 0 [(0, 0), (0, 0)] [0, 0] [] [] [] [] 0)"
    by (simp add: issue_def testbench_config_def test_a_def tb_state_def pk_def)
  have "test_packets test_a test_a 0 = Some (tb_state 10000 [(0, 1035), (0, 1035)] [] [] []
      [(0, 5), (0, 4), (0, 3), (0, 2), (0, 1)] [] 5)"
    unfolding test_packets_def issue_test_a option.case tb_run_def [symmetric] tb_run_0
      again walks_of_one_asid ..
  then show ?thesis
    by (simp add: tb_state_def)
qed

end
